theory Spec2Isabelle
  imports Complex_Main "HOL-Library.Log_Nat" "HOL-Library.Sublist" "HOL-Library.AList"
begin

section \<open>Python values\<close>

text \<open>
  A Python \<open>str\<close> is a sequence of Unicode code points, so it is a list of naturals here;
  \<open>ustr\<close> turns an ASCII literal into such a sequence. Python's \<open>int\<close> is unbounded and
  becomes \<open>int\<close>. Instants (\<open>datetime\<close> values, all timezone-aware UTC in this program)
  are microseconds since the epoch.
\<close>

type_synonym pystr = "nat list"

definition ustr :: "string \<Rightarrow> pystr" where
  "ustr s = map of_char s"

datatype pyval = PyNone | PyInt int | PyStr pystr | PyBool bool

type_synonym pydict = "string \<Rightarrow> pyval option"

datatype py_error = AttributeError

section \<open>utils.py\<close>

subsection \<open>html.escape and str.strip, as the standard library defines them\<close>

text \<open>
  \<open>str.replace\<close> with a one-character pattern, and \<open>html.escape(s, quote=True)\<close>, which is
  five such replacements in sequence, the ampersand first.
\<close>

definition str_replace :: "nat \<Rightarrow> pystr \<Rightarrow> pystr \<Rightarrow> pystr" where
  "str_replace old new s = concat (map (\<lambda>c. if c = old then new else [c]) s)"

definition escape :: "pystr \<Rightarrow> pystr" where
  "escape s =
     (let s = str_replace 38 (ustr ''&amp;'') s;
          s = str_replace 60 (ustr ''&lt;'') s;
          s = str_replace 62 (ustr ''&gt;'') s;
          s = str_replace 34 (ustr ''&quot;'') s;
          s = str_replace 39 (ustr ''&#x27;'') s
      in s)"

text \<open>The code points that \<open>str.strip()\<close> without argument removes.\<close>

definition isspace :: "nat \<Rightarrow> bool" where
  "isspace c \<longleftrightarrow>
     (9 \<le> c \<and> c \<le> 13) \<or> (28 \<le> c \<and> c \<le> 32) \<or> c = 133 \<or> c = 160 \<or> c = 5760 \<or>
     (8192 \<le> c \<and> c \<le> 8202) \<or> c = 8232 \<or> c = 8233 \<or> c = 8239 \<or> c = 8287 \<or> c = 12288"

definition strip :: "pystr \<Rightarrow> pystr" where
  "strip s = rev (dropWhile isspace (rev (dropWhile isspace s)))"

subsection \<open>format_post_caption\<close>

text \<open>
  \<open>post.get('text', '')\<close> reads the key or takes the empty string; \<open>escape\<close> calls
  \<open>.replace\<close> on what it is given, which raises \<open>AttributeError\<close> on \<open>None\<close>, an
  integer or a boolean.
\<close>

definition placeholder :: pystr where
  "placeholder = ustr ''[Media post without text]''"

definition footer :: pystr where
  "footer = [10, 10] @ ustr ''<blockquote>powered by Sinus-Alpha</blockquote>''"

definition format_post_caption :: "pydict \<Rightarrow> py_error + pystr" where
  "format_post_caption post =
     (case (case post ''text'' of None \<Rightarrow> PyStr [] | Some v \<Rightarrow> v) of
        PyStr t \<Rightarrow>
          (let original_text = escape t;
               original_text = (if strip original_text = [] then placeholder else original_text)
           in Inr (original_text @ footer))
      | _ \<Rightarrow> Inl AttributeError)"

subsection \<open>calculate_interaction_score\<close>

text \<open>The third parameter is optional in the source (\<open>reactions=0\<close>).\<close>

definition calculate_interaction_score :: "int \<Rightarrow> int \<Rightarrow> int option \<Rightarrow> int" where
  "calculate_interaction_score views forwards reactions_arg =
     (let reactions = (case reactions_arg of None \<Rightarrow> 0 | Some r \<Rightarrow> r)
      in views + (forwards * 2) + (reactions * 3))"

subsection \<open>validate_post_data\<close>

definition required_fields :: "string list" where
  "required_fields = [''channel'', ''id'', ''text'', ''views'', ''forwards'', ''has_media'']"

definition validate_post_data :: "pydict \<Rightarrow> bool" where
  "validate_post_data post = list_all (\<lambda>field. post field \<noteq> None) required_fields"

section \<open>IEEE double arithmetic of the selection count\<close>

text \<open>
  \<open>len(channel_posts) * top_percentage\<close> is a product of doubles. The literal \<open>0.2\<close> is the
  double \<open>3602879701896397 / 2^54\<close>. A non-negative double is kept here as its numerator
  over \<open>2^54\<close>; the values that occur lie between \<open>0.2\<close> and \<open>2^64\<close>, so neither overflow
  nor subnormals arise and rounding to 53 significant bits (ties to even) is all there is.
\<close>

definition round_half_even :: "nat \<Rightarrow> nat \<Rightarrow> nat" where
  "round_half_even m s =
     (let q = m div 2 ^ s; r = m mod 2 ^ s
      in if 2 ^ s < 2 * r \<or> (2 * r = 2 ^ s \<and> odd q) then (q + 1) * 2 ^ s else q * 2 ^ s)"

definition round53 :: "nat \<Rightarrow> nat" where
  "round53 m = round_half_even m (nat (bitlen (int m)) - 53)"

definition top_percentage_numerator :: nat where
  "top_percentage_numerator = 3602879701896397"

definition mul_top_percentage :: "nat \<Rightarrow> nat" where
  "mul_top_percentage n = round53 (round53 n * top_percentage_numerator)"

definition math_ceil :: "nat \<Rightarrow> nat" where
  "math_ceil x = (x + (2 ^ 54 - 1)) div 2 ^ 54"

definition int_of_float :: "nat \<Rightarrow> nat" where
  "int_of_float x = x div 2 ^ 54"

section \<open>main.py: fetch_top_posts_with_client\<close>

subsection \<open>Data\<close>

text \<open>
  A Telethon message as the code reads it: \<open>date\<close> is always there, \<open>views\<close>,
  \<open>forwards\<close> and \<open>message\<close> may be absent or \<open>None\<close>; of \<open>media\<close> only the truth
  value is used.
\<close>

record message =
  msg_id :: int
  msg_date :: int
  msg_message :: "pystr option"
  msg_views :: "int option"
  msg_forwards :: "int option"
  msg_media :: bool

text \<open>
  The \<open>post_data\<close> dict has a fixed set of keys, so it is a record. Its \<open>date\<close> holds the
  instant itself in place of the ISO string printed from it.
\<close>

record post =
  channel :: pystr
  text' :: pystr
  views :: int
  forwards :: int
  interaction_score :: int
  date :: int
  id' :: int
  has_media :: bool

record channel_analysis =
  total_posts :: nat
  selected_posts :: nat
  posts :: "post list"
  error :: "pystr option"

text \<open>
  The connected client: each call either raises (\<open>Inl\<close> the exception's text) or returns.
  Within one run its answer depends on the arguments of the call only.
\<close>

record 'e client =
  get_entity :: "pystr \<Rightarrow> pystr + 'e"
  get_messages :: "'e \<Rightarrow> int \<Rightarrow> pystr + message list"

text \<open>What \<open>logger.error\<close> receives; lines of lower level are not kept.\<close>

datatype log_error = FetchFailed pystr pystr | SaveFailed pystr

record run_state =
  all_posts_by_channel :: "(pystr \<times> channel_analysis) list"
  errors_logged :: "log_error list"

record analysis_data =
  timestamp :: int
  selection_method :: pystr
  total_channels :: nat
  total_posts_found :: nat
  total_posts_selected :: nat
  channels_analysis :: "(pystr \<times> channel_analysis) list"
  final_selected_posts :: "post list"

record fetch_result =
  returned :: "post list"
  snapshot_file :: "analysis_data option"
  logged :: "log_error list"

subsection \<open>The message loop (lines 205-230)\<close>

definition make_post :: "pystr \<Rightarrow> message \<Rightarrow> post" where
  "make_post ch msg =
     (let views = (case msg_views msg of None \<Rightarrow> 0 | Some v \<Rightarrow> v);
          forwards = (case msg_forwards msg of None \<Rightarrow> 0 | Some f \<Rightarrow> f);
          interaction_score = calculate_interaction_score views forwards None
      in \<lparr>channel = ch,
          text' = (case msg_message msg of None \<Rightarrow> [] | Some t \<Rightarrow> t),
          views = views,
          forwards = forwards,
          interaction_score = interaction_score,
          date = msg_date msg,
          id' = msg_id msg,
          has_media = msg_media msg\<rparr>)"

fun collect_recent :: "pystr \<Rightarrow> int \<Rightarrow> message list \<Rightarrow> post list \<Rightarrow> post list" where
  "collect_recent ch cutoff_time [] channel_posts = channel_posts"
| "collect_recent ch cutoff_time (msg # rest) channel_posts =
     (if msg_date msg \<ge> cutoff_time
      then collect_recent ch cutoff_time rest (channel_posts @ [make_post ch msg])
      else channel_posts)"

subsection \<open>Sorting and the per-channel selection (lines 232-254)\<close>

text \<open>
  \<open>list.sort(key=..., reverse=True)\<close> is stable: elements with equal keys keep their order.
\<close>

definition sort_reverse :: "('a \<Rightarrow> int) \<Rightarrow> 'a list \<Rightarrow> 'a list" where
  "sort_reverse key xs = sort_key (\<lambda>x. - key x) xs"

definition channel_top_count :: "nat \<Rightarrow> nat" where
  "channel_top_count n = max 1 (math_ceil (mul_top_percentage n))"

definition select_top :: "post list \<Rightarrow> channel_analysis" where
  "select_top fetched =
     (let channel_posts = sort_reverse interaction_score fetched
      in if channel_posts \<noteq> []
         then \<lparr>total_posts = length channel_posts,
               selected_posts = channel_top_count (length channel_posts),
               posts = take (channel_top_count (length channel_posts)) channel_posts,
               error = None\<rparr>
         else \<lparr>total_posts = 0, selected_posts = 0, posts = [], error = None\<rparr>)"

subsection \<open>The channel loop with its try/except (lines 192-264)\<close>

definition fetch_channel :: "'e client \<Rightarrow> pystr \<Rightarrow> int \<Rightarrow> pystr + message list" where
  "fetch_channel cl ch limit_per_channel =
     (case get_entity cl ch of
        Inl e \<Rightarrow> Inl e
      | Inr entity \<Rightarrow> get_messages cl entity limit_per_channel)"

definition failed_entry :: "pystr \<Rightarrow> channel_analysis" where
  "failed_entry e = \<lparr>total_posts = 0, selected_posts = 0, posts = [], error = Some e\<rparr>"

text \<open>The entry that one pass of the loop body stores under the channel's name.\<close>

definition channel_entry :: "'e client \<Rightarrow> int \<Rightarrow> int \<Rightarrow> pystr \<Rightarrow> channel_analysis" where
  "channel_entry cl limit_per_channel cutoff_time ch =
     (case fetch_channel cl ch limit_per_channel of
        Inr messages \<Rightarrow> select_top (collect_recent ch cutoff_time messages [])
      | Inl e \<Rightarrow> failed_entry e)"

definition process_channel ::
  "'e client \<Rightarrow> int \<Rightarrow> int \<Rightarrow> run_state \<Rightarrow> pystr \<Rightarrow> run_state" where
  "process_channel cl limit_per_channel cutoff_time st ch =
     (case fetch_channel cl ch limit_per_channel of
        Inr messages \<Rightarrow>
          st\<lparr>all_posts_by_channel :=
               AList.update ch (select_top (collect_recent ch cutoff_time messages []))
                 (all_posts_by_channel st)\<rparr>
      | Inl e \<Rightarrow>
          st\<lparr>all_posts_by_channel := AList.update ch (failed_entry e) (all_posts_by_channel st),
             errors_logged := errors_logged st @ [FetchFailed ch e]\<rparr>)"

fun process_channels ::
  "'e client \<Rightarrow> int \<Rightarrow> int \<Rightarrow> run_state \<Rightarrow> pystr list \<Rightarrow> run_state" where
  "process_channels cl limit_per_channel cutoff_time st [] = st"
| "process_channels cl limit_per_channel cutoff_time st (ch # rest) =
     process_channels cl limit_per_channel cutoff_time
       (process_channel cl limit_per_channel cutoff_time st ch) rest"

subsection \<open>The merge (lines 266-277)\<close>

fun combine ::
  "(pystr \<times> channel_analysis) list \<Rightarrow> post list \<times> nat \<times> nat \<Rightarrow> post list \<times> nat \<times> nat" where
  "combine [] acc = acc"
| "combine ((ch, data) # rest) (all_selected_posts, total_posts_all_channels, total_selected_posts) =
     combine rest
       (all_selected_posts @ posts data,
        total_posts_all_channels + total_posts data,
        total_selected_posts + selected_posts data)"

subsection \<open>The whole function\<close>

text \<open>
  \<open>current_time\<close> is what \<open>datetime.now\<close> returned; \<open>write_file\<close> is the file system's
  answer to creating the directory, opening \<open>content/posts.json\<close> and dumping the data:
  \<open>None\<close> when it all went through, the exception's text otherwise.
\<close>

definition cutoff :: "int \<Rightarrow> int" where
  "cutoff current_time = current_time - 24 * 3600 * 1000000"

definition analyse ::
  "'e client \<Rightarrow> pystr list \<Rightarrow> int \<Rightarrow> int \<Rightarrow> run_state" where
  "analyse cl channels limit_per_channel current_time =
     process_channels cl limit_per_channel (cutoff current_time)
       \<lparr>all_posts_by_channel = [], errors_logged = []\<rparr> channels"

definition fetch_top_posts_with_client ::
  "'e client \<Rightarrow> pystr list \<Rightarrow> int \<Rightarrow> int \<Rightarrow> (analysis_data \<Rightarrow> pystr option) \<Rightarrow> fetch_result" where
  "fetch_top_posts_with_client cl channels limit_per_channel current_time write_file =
     (let st = analyse cl channels limit_per_channel current_time;
          (combined, total_posts_all_channels, total_selected_posts) =
             combine (all_posts_by_channel st) ([], 0, 0);
          all_selected_posts = sort_reverse interaction_score combined;
          data = \<lparr>timestamp = current_time,
                  selection_method = ustr ''top_20_percent_per_channel'',
                  total_channels = length channels,
                  total_posts_found = total_posts_all_channels,
                  total_posts_selected = total_selected_posts,
                  channels_analysis = all_posts_by_channel st,
                  final_selected_posts = all_selected_posts\<rparr>
      in case write_file data of
           None \<Rightarrow> \<lparr>returned = all_selected_posts, snapshot_file = Some data,
                     logged = errors_logged st\<rparr>
         | Some e \<Rightarrow> \<lparr>returned = all_selected_posts, snapshot_file = None,
                       logged = errors_logged st @ [SaveFailed e]\<rparr>)"

section \<open>scrapers/telegram_scraper.py: fetch_top_posts_last_24h\<close>

text \<open>
  The older entry point pools the posts of all channels in one list before it sorts and
  cuts. The client it builds and starts itself is a parameter here; its write of the
  snapshot, guarded like the one of \<open>main.py\<close>, has no part in what it returns and is
  left out.
\<close>

record scrape_result =
  top_posts :: "post list"
  top_count :: nat
  scraped_total :: nat

fun scrape_channels ::
  "'e client \<Rightarrow> int \<Rightarrow> int \<Rightarrow> post list \<Rightarrow> pystr list \<Rightarrow> post list" where
  "scrape_channels cl limit_per_channel cutoff_time all_posts [] = all_posts"
| "scrape_channels cl limit_per_channel cutoff_time all_posts (ch # rest) =
     scrape_channels cl limit_per_channel cutoff_time
       (case fetch_channel cl ch limit_per_channel of
          Inr messages \<Rightarrow> collect_recent ch cutoff_time messages all_posts
        | Inl e \<Rightarrow> all_posts)
       rest"

definition fetch_top_posts_last_24h ::
  "'e client \<Rightarrow> pystr list \<Rightarrow> int \<Rightarrow> int \<Rightarrow> scrape_result" where
  "fetch_top_posts_last_24h cl channels limit_per_channel current_time =
     (let all_posts = sort_reverse interaction_score
            (scrape_channels cl limit_per_channel (cutoff current_time) [] channels);
          total = length all_posts;
          cnt = max 1 (int_of_float (mul_top_percentage total))
      in \<lparr>top_posts = take cnt all_posts, top_count = cnt, scraped_total = total\<rparr>)"

section \<open>Sample inputs\<close>

text \<open>
  A client with three channels for the concrete runs below: \<open>a\<close> has six recent messages,
  \<open>b\<close> has one, and resolving \<open>c\<close> raises.
\<close>

abbreviation sample_message :: "int \<Rightarrow> int \<Rightarrow> message" where
  "sample_message i v \<equiv>
     \<lparr>msg_id = i, msg_date = 100, msg_message = None, msg_views = Some v,
      msg_forwards = None, msg_media = False\<rparr>"

abbreviation sample_post :: "pystr \<Rightarrow> int \<Rightarrow> int \<Rightarrow> post" where
  "sample_post ch i v \<equiv>
     \<lparr>channel = ch, text' = [], views = v, forwards = 0, interaction_score = v,
      date = 100, id' = i, has_media = False\<rparr>"

abbreviation sample_client :: "pystr client" where
  "sample_client \<equiv>
     \<lparr>get_entity = (\<lambda>ch. if ch = ustr ''c'' then Inl (ustr ''not found'') else Inr ch),
      get_messages = (\<lambda>entity limit. Inr
        (if entity = ustr ''a''
         then [sample_message 1 5, sample_message 2 9, sample_message 3 5,
               sample_message 4 9, sample_message 5 1, sample_message 6 9]
         else [sample_message 7 9]))\<rparr>"

text \<open>A client that resolves every channel and raises on the messages of \<open>d\<close>.\<close>

abbreviation sample_client_flood :: "pystr client" where
  "sample_client_flood \<equiv>
     \<lparr>get_entity = Inr,
      get_messages = (\<lambda>entity limit.
        if entity = ustr ''d'' then Inl (ustr ''flood wait'') else Inr [sample_message 7 9])\<rparr>"

section \<open>The scoring function\<close>

text \<open>
  C6. For all non-negative integers \<open>v\<close>, \<open>f\<close>, \<open>r\<close> the score is \<open>v + 2f + 3r\<close>; with the
  third argument left out it is the score for \<open>r = 0\<close>; and the score does not decrease
  when one argument grows and the other two stay. The function is a total HOL function of
  its arguments, so it always returns and returns the same value for the same arguments.
\<close>

theorem calculate_interaction_score_spec:
  assumes "0 \<le> v" and "0 \<le> f" and "0 \<le> r"
  shows "calculate_interaction_score v f (Some r) = v + 2 * f + 3 * r
    \<and> calculate_interaction_score v f None = calculate_interaction_score v f (Some 0)
    \<and> (\<forall>v'. v \<le> v' \<longrightarrow>
           calculate_interaction_score v f (Some r) \<le> calculate_interaction_score v' f (Some r))
    \<and> (\<forall>f'. f \<le> f' \<longrightarrow>
           calculate_interaction_score v f (Some r) \<le> calculate_interaction_score v f' (Some r))
    \<and> (\<forall>r'. r \<le> r' \<longrightarrow>
           calculate_interaction_score v f (Some r) \<le> calculate_interaction_score v f (Some r'))"
  by (simp add: calculate_interaction_score_def)

theorem calculate_interaction_score_spec_witness:
  "calculate_interaction_score 10 4 (Some 2) = 24
   \<and> calculate_interaction_score 10 4 None = calculate_interaction_score 10 4 (Some 0)
   \<and> calculate_interaction_score 10 4 (Some 2) \<le> calculate_interaction_score 11 4 (Some 2)
   \<and> calculate_interaction_score 10 4 (Some 2) \<le> calculate_interaction_score 10 5 (Some 2)
   \<and> calculate_interaction_score 10 4 (Some 2) \<le> calculate_interaction_score 10 4 (Some 3)"
proof -
  have h: "(0::int) \<le> 10" "(0::int) \<le> 4" "(0::int) \<le> 2" by simp_all
  note t = calculate_interaction_score_spec [OF h]
  from t have a: "calculate_interaction_score 10 4 (Some 2) = 24" by simp
  from t have b: "calculate_interaction_score 10 4 None = calculate_interaction_score 10 4 (Some 0)"
    by (rule conjunct1 [OF conjunct2])
  from t have c: "calculate_interaction_score 10 4 (Some 2) \<le> calculate_interaction_score 11 4 (Some 2)"
    by (elim conjE allE [of _ 11]) simp
  from t have d: "calculate_interaction_score 10 4 (Some 2) \<le> calculate_interaction_score 10 5 (Some 2)"
    by (elim conjE allE [of _ 5]) simp
  from t have e: "calculate_interaction_score 10 4 (Some 2) \<le> calculate_interaction_score 10 4 (Some 3)"
    by (elim conjE allE [of _ 3]) simp
  from a b c d e show ?thesis by (intro conjI)
qed

section \<open>The caption formatter\<close>

lemma strip_empty_iff: "strip s = [] \<longleftrightarrow> (\<forall>c\<in>set s. isspace c)"
proof
  assume "strip s = []"
  then have a: "\<forall>c\<in>set (dropWhile isspace s). isspace c"
    by (simp add: strip_def dropWhile_eq_Nil_conv)
  have "dropWhile isspace s = []"
  proof (rule ccontr)
    assume n: "dropWhile isspace s \<noteq> []"
    then have "\<not> isspace (hd (dropWhile isspace s))" by (rule hd_dropWhile)
    moreover from n have "hd (dropWhile isspace s) \<in> set (dropWhile isspace s)" by simp
    ultimately show False using a by blast
  qed
  then show "\<forall>c\<in>set s. isspace c" by (simp add: dropWhile_eq_Nil_conv)
next
  assume "\<forall>c\<in>set s. isspace c"
  then have d: "dropWhile isspace s = []" by (simp add: dropWhile_eq_Nil_conv)
  show "strip s = []" unfolding strip_def d by simp
qed

lemma str_replace_concat_map:
  "str_replace old new (concat (map f s)) = concat (map (\<lambda>x. str_replace old new (f x)) s)"
  by (induction s) (simp_all add: str_replace_def)

lemma str_replace_as_map:
  "str_replace old new s = concat (map (\<lambda>c. str_replace old new [c]) s)"
  by (simp add: str_replace_def)

lemma escape_char:
  "escape [c] =
     (if c = 38 then ustr ''&amp;'' else if c = 60 then ustr ''&lt;''
      else if c = 62 then ustr ''&gt;'' else if c = 34 then ustr ''&quot;''
      else if c = 39 then ustr ''&#x27;'' else [c])"
  by (simp add: escape_def str_replace_def ustr_def)

text \<open>
  The five replacements in sequence never touch what an earlier one wrote: the result is
  the input with each of the five characters replaced by its entity, once.
\<close>

lemma escape_concat: "escape s = concat (map (\<lambda>c. escape [c]) s)"
proof -
  have "escape s = str_replace 39 (ustr ''&#x27;'') (str_replace 34 (ustr ''&quot;'')
       (str_replace 62 (ustr ''&gt;'') (str_replace 60 (ustr ''&lt;'')
       (concat (map (\<lambda>c. str_replace 38 (ustr ''&amp;'') [c]) s)))))"
    unfolding escape_def Let_def by (subst str_replace_as_map) (rule refl)
  also have "\<dots> = concat (map (\<lambda>c. escape [c]) s)"
    unfolding escape_def Let_def by (simp only: str_replace_concat_map)
  finally show ?thesis .
qed

lemma format_post_caption_text:
  assumes "post ''text'' = Some (PyStr t) \<or> (post ''text'' = None \<and> t = [])"
  shows "format_post_caption post =
           Inr ((if \<forall>c\<in>set (escape t). isspace c then placeholder else escape t) @ footer)"
  using assms by (auto simp add: format_post_caption_def Let_def strip_empty_iff)

text \<open>A value under \<open>'text'\<close> that is not a string makes \<open>escape\<close> raise.\<close>

lemma format_post_caption_not_text:
  "format_post_caption [''text'' \<mapsto> PyNone] = Inl AttributeError"
  by (simp add: format_post_caption_def)

text \<open>
  C8. For every post whose \<open>'text'\<close> is a string \<open>t\<close> (or is absent, which reads as the
  empty string), the caption is the HTML-escaped text, or the placeholder
  \<open>[Media post without text]\<close> when the escaped text is empty or all whitespace, followed by
  the fixed blockquote footer; escaping replaces each of \<open>&\<close>, \<open><\<close>, \<open>>\<close>, the double and
  the single quote by its entity and leaves every other character. The text \<open><b>hi</b>\<close>
  gives \<open>&lt;b&gt;hi&lt;/b&gt;\<close> and the footer, the empty text gives the placeholder and
  the footer. The caption is a function of the post alone.
\<close>

theorem format_post_caption_spec:
  "(\<forall>t. post ''text'' = Some (PyStr t) \<or> (post ''text'' = None \<and> t = []) \<longrightarrow>
       format_post_caption post =
         Inr ((if \<forall>c\<in>set (escape t). isspace c then placeholder else escape t) @ footer)
       \<and> escape t = concat (map (\<lambda>c.
            if c = 38 then ustr ''&amp;'' else if c = 60 then ustr ''&lt;''
            else if c = 62 then ustr ''&gt;'' else if c = 34 then ustr ''&quot;''
            else if c = 39 then ustr ''&#x27;'' else [c]) t))
   \<and> format_post_caption [''text'' \<mapsto> PyStr (ustr ''<b>hi</b>'')] =
       Inr (ustr ''&lt;b&gt;hi&lt;/b&gt;'' @ [10, 10]
            @ ustr ''<blockquote>powered by Sinus-Alpha</blockquote>'')
   \<and> format_post_caption [''text'' \<mapsto> PyStr []] =
       Inr (ustr ''[Media post without text]'' @ [10, 10]
            @ ustr ''<blockquote>powered by Sinus-Alpha</blockquote>'')"
proof (intro conjI allI impI)
  fix t
  assume "post ''text'' = Some (PyStr t) \<or> (post ''text'' = None \<and> t = [])"
  then show "format_post_caption post =
      Inr ((if \<forall>c\<in>set (escape t). isspace c then placeholder else escape t) @ footer)"
    by (rule format_post_caption_text)
next
  fix t
  show "escape t = concat (map (\<lambda>c.
            if c = 38 then ustr ''&amp;'' else if c = 60 then ustr ''&lt;''
            else if c = 62 then ustr ''&gt;'' else if c = 34 then ustr ''&quot;''
            else if c = 39 then ustr ''&#x27;'' else [c]) t)"
    by (subst escape_concat) (simp only: escape_char)
next
  show "format_post_caption [''text'' \<mapsto> PyStr (ustr ''<b>hi</b>'')] =
       Inr (ustr ''&lt;b&gt;hi&lt;/b&gt;'' @ [10, 10]
            @ ustr ''<blockquote>powered by Sinus-Alpha</blockquote>'')"
    by (simp add: format_post_caption_def escape_def str_replace_def ustr_def strip_def
        isspace_def footer_def)
next
  show "format_post_caption [''text'' \<mapsto> PyStr []] =
       Inr (ustr ''[Media post without text]'' @ [10, 10]
            @ ustr ''<blockquote>powered by Sinus-Alpha</blockquote>'')"
    by (simp add: format_post_caption_def escape_def str_replace_def strip_def
        placeholder_def footer_def)
qed

theorem format_post_caption_spec_witness:
  "format_post_caption [''text'' \<mapsto> PyStr (ustr ''a & b'')] = Inr (ustr ''a &amp; b'' @ footer)
   \<and> format_post_caption [''text'' \<mapsto> PyStr [32, 10, 12288]] = Inr (placeholder @ footer)
   \<and> format_post_caption [''id'' \<mapsto> PyInt 5] = Inr (placeholder @ footer)"
proof -
  have a: "format_post_caption [''text'' \<mapsto> PyStr (ustr ''a & b'')] = Inr (ustr ''a &amp; b'' @ footer)"
    using format_post_caption_spec [of "[''text'' \<mapsto> PyStr (ustr ''a & b'')]"]
    by (simp add: ustr_def isspace_def)
  have b: "format_post_caption [''text'' \<mapsto> PyStr [32, 10, 12288]] = Inr (placeholder @ footer)"
    using format_post_caption_spec [of "[''text'' \<mapsto> PyStr [32, 10, 12288]]"]
    by (simp add: isspace_def)
  have c: "format_post_caption [''id'' \<mapsto> PyInt 5] = Inr (placeholder @ footer)"
    using format_post_caption_spec [of "[''id'' \<mapsto> PyInt 5]"]
    by simp
  from a b c show ?thesis by (intro conjI)
qed

section \<open>The post validator\<close>

text \<open>
  C10. \<open>validate_post_data\<close> returns \<open>True\<close> exactly when the six keys \<open>channel\<close>, \<open>id\<close>,
  \<open>text\<close>, \<open>views\<close>, \<open>forwards\<close> and \<open>has_media\<close> are all keys of the post. The values play
  no part: two posts with the same keys get the same answer, and a post that has the six
  keys with \<open>None\<close> as its text and negative counters is valid.
\<close>

theorem validate_post_data_keys_only:
  "(validate_post_data post \<longleftrightarrow>
      {''channel'', ''id'', ''text'', ''views'', ''forwards'', ''has_media''} \<subseteq> dom post)
   \<and> (\<forall>post'. dom post' = dom post \<longrightarrow> validate_post_data post' = validate_post_data post)
   \<and> validate_post_data
        [''channel'' \<mapsto> PyStr (ustr ''news''), ''id'' \<mapsto> PyInt 7, ''text'' \<mapsto> PyNone,
         ''views'' \<mapsto> PyInt (- 5), ''forwards'' \<mapsto> PyInt (- 1), ''has_media'' \<mapsto> PyNone]"
proof -
  have iff: "validate_post_data p \<longleftrightarrow>
      {''channel'', ''id'', ''text'', ''views'', ''forwards'', ''has_media''} \<subseteq> dom p" for p
    by (auto simp add: validate_post_data_def required_fields_def)
  have ex: "validate_post_data
        [''channel'' \<mapsto> PyStr (ustr ''news''), ''id'' \<mapsto> PyInt 7, ''text'' \<mapsto> PyNone,
         ''views'' \<mapsto> PyInt (- 5), ''forwards'' \<mapsto> PyInt (- 1), ''has_media'' \<mapsto> PyNone]"
    by (simp add: validate_post_data_def required_fields_def)
  show ?thesis
    using ex by (simp add: iff)
qed

theorem validate_post_data_keys_only_witness:
  "validate_post_data
     [''channel'' \<mapsto> PyNone, ''id'' \<mapsto> PyNone, ''text'' \<mapsto> PyNone,
      ''views'' \<mapsto> PyNone, ''forwards'' \<mapsto> PyNone, ''has_media'' \<mapsto> PyNone]
   \<and> \<not> validate_post_data
     [''channel'' \<mapsto> PyStr (ustr ''news''), ''id'' \<mapsto> PyInt 7, ''text'' \<mapsto> PyStr [],
      ''views'' \<mapsto> PyInt 3, ''forwards'' \<mapsto> PyInt 1]"
proof -
  have a: "validate_post_data
     [''channel'' \<mapsto> PyNone, ''id'' \<mapsto> PyNone, ''text'' \<mapsto> PyNone,
      ''views'' \<mapsto> PyNone, ''forwards'' \<mapsto> PyNone, ''has_media'' \<mapsto> PyNone]"
    using validate_post_data_keys_only [of "[''channel'' \<mapsto> PyNone, ''id'' \<mapsto> PyNone,
      ''text'' \<mapsto> PyNone, ''views'' \<mapsto> PyNone, ''forwards'' \<mapsto> PyNone,
      ''has_media'' \<mapsto> PyNone]"]
    by simp
  have b: "\<not> validate_post_data
     [''channel'' \<mapsto> PyStr (ustr ''news''), ''id'' \<mapsto> PyInt 7, ''text'' \<mapsto> PyStr [],
      ''views'' \<mapsto> PyInt 3, ''forwards'' \<mapsto> PyInt 1]"
    using validate_post_data_keys_only [of "[''channel'' \<mapsto> PyStr (ustr ''news''),
      ''id'' \<mapsto> PyInt 7, ''text'' \<mapsto> PyStr [], ''views'' \<mapsto> PyInt 3,
      ''forwards'' \<mapsto> PyInt 1]"]
    by simp
  from a b show ?thesis by (intro conjI)
qed

section \<open>Rounding to double precision\<close>

lemma round_half_even_cases:
  "round_half_even m s = (m div 2 ^ s) * 2 ^ s \<or> round_half_even m s = (m div 2 ^ s) * 2 ^ s + 2 ^ s"
  by (simp add: round_half_even_def Let_def)

lemma round_half_even_bounds:
  "round_half_even m s \<le> m + 2 ^ s \<and> m < round_half_even m s + 2 ^ s"
proof -
  define q where "q = m div 2 ^ s"
  define r where "r = m mod 2 ^ s"
  define w :: nat where "w = 2 ^ s"
  have m: "m = q * w + r" unfolding q_def r_def w_def by (rule div_mult_mod_eq [symmetric])
  have r: "r < w" by (simp add: r_def w_def)
  from round_half_even_cases [of m s]
  have "round_half_even m s = q * w \<or> round_half_even m s = q * w + w"
    by (simp add: q_def w_def)
  then show ?thesis using m r unfolding w_def [symmetric] by auto
qed

lemma excess_bits:
  assumes "0 < P"
  shows "P < 2 ^ (nat (bitlen (int P)) - 53 + 53)"
    and "nat (bitlen (int P)) - 53 = 0 \<or> 2 ^ (nat (bitlen (int P)) - 53 + 52) \<le> P"
proof -
  define b where "b = nat (bitlen (int P))"
  from assms have p: "0 < int P" by simp
  from bitlen_bounds [OF p] have lo: "2 ^ nat (bitlen (int P) - 1) \<le> int P"
    and hi: "int P < 2 ^ b" by (simp_all add: b_def)
  from hi have "int P < int (2 ^ b)" by simp
  then have hi': "P < 2 ^ b" by (simp only: of_nat_less_iff)
  have "b \<le> b - 53 + 53" by simp
  then have "(2::nat) ^ b \<le> 2 ^ (b - 53 + 53)" by (rule power_increasing) simp
  with hi' have "P < 2 ^ (b - 53 + 53)" by (rule less_le_trans)
  then show "P < 2 ^ (nat (bitlen (int P)) - 53 + 53)" by (simp only: b_def)
  have "b - 53 = 0 \<or> 2 ^ (b - 53 + 52) \<le> P"
  proof (cases "b - 53 = 0")
    case True then show ?thesis by simp
  next
    case False
    then have e: "nat (bitlen (int P) - 1) = b - 53 + 52" by (simp add: b_def)
    from lo have "int (2 ^ (b - 53 + 52)) \<le> int P" unfolding e by simp
    then have "2 ^ (b - 53 + 52) \<le> P" by (simp only: of_nat_le_iff)
    then show ?thesis by simp
  qed
  then show "nat (bitlen (int P)) - 53 = 0 \<or> 2 ^ (nat (bitlen (int P)) - 53 + 52) \<le> P"
    by (simp only: b_def)
qed

lemma round_half_even_0: "round_half_even m 0 = m"
  by (simp add: round_half_even_def)

lemma round53_small:
  assumes "m < 2 ^ 53"
  shows "round53 m = m"
proof (cases "m = 0")
  case True
  then show ?thesis by (simp add: round53_def round_half_even_def)
next
  case False
  then have p: "0 < m" by simp
  from excess_bits(2) [OF p] have "nat (bitlen (int m)) - 53 = 0"
  proof
    assume "2 ^ (nat (bitlen (int m)) - 53 + 52) \<le> m"
    with assms have "(2::nat) ^ (nat (bitlen (int m)) - 53 + 52) < 2 ^ 53" by simp
    then have "nat (bitlen (int m)) - 53 + 52 < 53" by (simp only: power_strict_increasing_iff)
    then show ?thesis by simp
  qed
  then show ?thesis by (simp only: round53_def round_half_even_0)
qed

lemma five_times_numerator: "5 * top_percentage_numerator = 2 ^ 54 + 1"
  by (simp add: top_percentage_numerator_def)

lemma mul_top_percentage_range:
  assumes n0: "0 < n" and nb: "n < 2 ^ 51"
  shows "(n mod 5 = 0 \<longrightarrow> mul_top_percentage n = (n div 5) * 2 ^ 54)
       \<and> (n mod 5 \<noteq> 0 \<longrightarrow> (n div 5) * 2 ^ 54 < mul_top_percentage n
                          \<and> mul_top_percentage n < (n div 5 + 1) * 2 ^ 54)"
proof -
  define P where "P = n * top_percentage_numerator"
  define s where "s = nat (bitlen (int P)) - 53"
  define k where "k = n div 5"
  define j where "j = n mod 5"
  define v where "v = round_half_even P s"
  have n: "n = 5 * k + j" and j: "j < 5" by (simp_all add: k_def j_def)
  from nb have "n < 2 ^ 53" by simp
  then have "round53 n = n" by (rule round53_small)
  then have mtp: "mul_top_percentage n = v"
    by (simp add: mul_top_percentage_def round53_def P_def s_def v_def)
  have "5 * P = n * (5 * top_percentage_numerator)" by (simp add: P_def)
  then have P5: "5 * P = n * 18014398509481984 + n" by (simp add: five_times_numerator)
  from n0 have Ppos: "0 < P" by (simp add: P_def top_percentage_numerator_def)
  from excess_bits [OF Ppos] have hi: "P < 2 ^ (s + 53)" and lo: "s = 0 \<or> 2 ^ (s + 52) \<le> P"
    by (simp_all add: s_def)
  from nb have nb': "n < 2251799813685248" by simp
  from P5 nb' have Pub: "P < 2 ^ 104" by simp
  have s51: "s \<le> 51"
  proof -
    from lo show ?thesis
    proof
      assume "s = 0" then show ?thesis by simp
    next
      assume "2 ^ (s + 52) \<le> P"
      from this Pub have "(2::nat) ^ (s + 52) < 2 ^ 104" by (rule le_less_trans)
      then have "s + 52 < 104" by (simp only: power_strict_increasing_iff)
      then show ?thesis by simp
    qed
  qed
  then have "(2::nat) ^ s \<le> 2 ^ 51" by (simp only: power_increasing_iff)
  then have w: "(2::nat) ^ s \<le> 2251799813685248" by simp
  from round_half_even_bounds [of P s]
  have vb: "v \<le> P + 2 ^ s" "P < v + 2 ^ s" by (simp_all add: v_def)
  show ?thesis
  proof (intro conjI impI)
    assume "n mod 5 \<noteq> 0"
    then have j1: "1 \<le> j" by (simp add: j_def)
    from vb(2) P5 n j1 w have "5 * (k * 18014398509481984) < 5 * v" by linarith
    then have "k * 18014398509481984 < v" by simp
    then show "(n div 5) * 2 ^ 54 < mul_top_percentage n" by (simp add: mtp k_def)
  next
    assume "n mod 5 \<noteq> 0"
    from vb(1) P5 have a: "5 * v \<le> n * 18014398509481984 + n + 5 * 2 ^ s" by linarith
    from n have b: "n * 18014398509481984 = 5 * (k * 18014398509481984) + j * 18014398509481984"
      by (simp add: algebra_simps)
    from j have c: "j * 18014398509481984 \<le> 4 * 18014398509481984" by simp
    from a b c w nb' have "5 * v < 5 * (k * 18014398509481984) + 5 * 18014398509481984"
      by linarith
    then have "v < (k + 1) * 18014398509481984" by simp
    then show "mul_top_percentage n < (n div 5 + 1) * 2 ^ 54" by (simp add: mtp k_def)
  next
    assume "n mod 5 = 0"
    then have j0: "j = 0" by (simp add: j_def)
    with n n0 have k0: "0 < k" by simp
    from P5 n j0 have Pk: "P = k * 2 ^ 54 + k" by simp
    have s2: "2 \<le> s"
    proof (rule ccontr)
      assume "\<not> 2 \<le> s"
      then have "s + 53 \<le> 54" by simp
      then have "(2::nat) ^ (s + 53) \<le> 2 ^ 54" by (simp only: power_increasing_iff)
      with hi have "P < 2 ^ 54" by (rule less_le_trans)
      with Pk k0 show False by simp
    qed
    define t where "t = 54 - s"
    from s51 have ts: "t + s = 54" by (simp add: t_def)
    have p54: "(2::nat) ^ 54 = 2 ^ t * 2 ^ s" by (simp only: power_add [symmetric] ts)
    from s2 have ss: "s + 53 = (s - 1) + 54" by simp
    have "k * 2 ^ 54 < 2 ^ (s + 53)" using hi Pk by simp
    then have "k * 2 ^ 54 < 2 ^ (s - 1) * 2 ^ 54" by (simp only: ss power_add)
    then have kb: "k < 2 ^ (s - 1)" by simp
    from s2 have "(2::nat) ^ s = 2 * 2 ^ (s - 1)" by (cases s) simp_all
    with kb have k2: "2 * k < 2 ^ s" by simp
    then have ks: "k < 2 ^ s" by simp
    have Pq: "P = (k * 2 ^ t) * 2 ^ s + k" unfolding Pk p54 by (simp only: mult.assoc)
    have q: "P div 2 ^ s = k * 2 ^ t" unfolding Pq using ks by simp
    have r: "P mod 2 ^ s = k" unfolding Pq using ks by simp
    have "v = (k * 2 ^ t) * 2 ^ s"
      unfolding v_def round_half_even_def Let_def q r using k2 by simp
    then have "v = k * 2 ^ 54" by (simp only: p54 mult.assoc)
    then show "mul_top_percentage n = (n div 5) * 2 ^ 54" by (simp only: mtp k_def)
  qed
qed

lemma math_ceil_between:
  assumes "k * 2 ^ 54 < x" and "x \<le> (k + 1) * 2 ^ 54"
  shows "math_ceil x = k + 1"
proof -
  from assms have "18014398509481984 * (k + 1) \<le> x + 18014398509481983"
    and "x + 18014398509481983 < 18014398509481984 * Suc (k + 1)" by simp_all
  then have "(x + 18014398509481983) div 18014398509481984 = k + 1" by (rule div_nat_eqI)
  then show ?thesis by (simp add: math_ceil_def)
qed

lemma math_ceil_exact: "math_ceil (k * 2 ^ 54) = k"
proof -
  have "18014398509481984 * k \<le> k * 18014398509481984 + 18014398509481983"
    and "k * 18014398509481984 + 18014398509481983 < 18014398509481984 * Suc k" by simp_all
  then have "(k * 18014398509481984 + 18014398509481983) div 18014398509481984 = k"
    by (rule div_nat_eqI)
  then show ?thesis by (simp add: math_ceil_def)
qed

lemma int_of_float_between:
  assumes "k * 2 ^ 54 \<le> x" and "x < (k + 1) * 2 ^ 54"
  shows "int_of_float x = k"
proof -
  from assms have "18014398509481984 * k \<le> x" and "x < 18014398509481984 * Suc k" by simp_all
  then have "x div 18014398509481984 = k" by (rule div_nat_eqI)
  then show ?thesis by (simp add: int_of_float_def)
qed

lemma math_ceil_mul_top_percentage:
  assumes "0 < n" and "n < 2 ^ 51"
  shows "math_ceil (mul_top_percentage n) = (n + 4) div 5"
proof (cases "n mod 5 = 0")
  case True
  with mul_top_percentage_range [OF assms]
  have "mul_top_percentage n = (n div 5) * 2 ^ 54" by simp
  then have "math_ceil (mul_top_percentage n) = n div 5" by (simp only: math_ceil_exact)
  also from True have "n div 5 = (n + 4) div 5" by presburger
  finally show ?thesis .
next
  case False
  with mul_top_percentage_range [OF assms]
  have "(n div 5) * 2 ^ 54 < mul_top_percentage n"
    and "mul_top_percentage n \<le> (n div 5 + 1) * 2 ^ 54" by simp_all
  then have "math_ceil (mul_top_percentage n) = n div 5 + 1" by (rule math_ceil_between)
  also from False have "n div 5 + 1 = (n + 4) div 5" by presburger
  finally show ?thesis .
qed

lemma mul_top_percentage_0: "mul_top_percentage 0 = 0"
  by (simp add: mul_top_percentage_def round53_small)

lemma int_of_float_mul_top_percentage:
  assumes "n < 2 ^ 51"
  shows "int_of_float (mul_top_percentage n) = n div 5"
proof (cases "n = 0")
  case True
  then show ?thesis by (simp add: mul_top_percentage_0 int_of_float_def)
next
  case False
  then have n0: "0 < n" by simp
  show ?thesis
  proof (cases "n mod 5 = 0")
    case True
    with mul_top_percentage_range [OF n0 assms]
    have "mul_top_percentage n = (n div 5) * 2 ^ 54" by simp
    then show ?thesis by (simp add: int_of_float_def)
  next
    case False
    with mul_top_percentage_range [OF n0 assms]
    have "(n div 5) * 2 ^ 54 \<le> mul_top_percentage n"
      and "mul_top_percentage n < (n div 5 + 1) * 2 ^ 54" by simp_all
    then show ?thesis by (rule int_of_float_between)
  qed
qed

lemma channel_top_count_exact:
  assumes "0 < n" and "n < 2 ^ 51"
  shows "channel_top_count n = (n + 4) div 5"
proof -
  from assms(1) have "1 \<le> (n + 4) div 5" by presburger
  then show ?thesis
    by (simp add: channel_top_count_def math_ceil_mul_top_percentage [OF assms])
qed

lemma ceiling_fifth: "nat \<lceil>real n * 0.2\<rceil> = (n + 4) div 5"
proof -
  have "real n * 0.2 = real_of_int (int n) / real_of_int 5" by simp
  then have "\<lceil>real n * 0.2\<rceil> = - (- int n div 5)" by (simp only: ceiling_divide_eq_div)
  also have "\<dots> = int ((n + 4) div 5)" by presburger
  finally show ?thesis by simp
qed

lemma round53_le_double: "round53 m \<le> 2 * m"
proof (cases "m = 0")
  case True
  then show ?thesis by (simp add: round53_small)
next
  case False
  then have p: "0 < m" by simp
  from excess_bits(2) [OF p] show ?thesis
  proof
    assume "nat (bitlen (int m)) - 53 = 0"
    then show ?thesis by (simp add: round53_def round_half_even_0)
  next
    assume a: "2 ^ (nat (bitlen (int m)) - 53 + 52) \<le> m"
    have "(2::nat) ^ (nat (bitlen (int m)) - 53) \<le> 2 ^ (nat (bitlen (int m)) - 53 + 52)"
      by (rule power_increasing) simp_all
    from this a have "2 ^ (nat (bitlen (int m)) - 53) \<le> m" by (rule le_trans)
    with round_half_even_bounds [of m "nat (bitlen (int m)) - 53"]
    show ?thesis by (simp add: round53_def)
  qed
qed

lemma channel_top_count_le:
  assumes "0 < n"
  shows "channel_top_count n \<le> n"
proof -
  have "mul_top_percentage n \<le> 2 * (round53 n * top_percentage_numerator)"
    unfolding mul_top_percentage_def by (rule round53_le_double)
  also have "\<dots> \<le> 2 * ((2 * n) * top_percentage_numerator)"
    using round53_le_double [of n] by simp
  also have "\<dots> \<le> n * 2 ^ 54" by (simp add: top_percentage_numerator_def)
  finally have "mul_top_percentage n + (2 ^ 54 - 1) < (n + 1) * 2 ^ 54" by simp
  then have "(mul_top_percentage n + (2 ^ 54 - 1)) div 2 ^ 54 < n + 1"
    by (simp only: less_mult_imp_div_less)
  then have "math_ceil (mul_top_percentage n) \<le> n" by (simp add: math_ceil_def)
  with assms show ?thesis by (simp add: channel_top_count_def)
qed

section \<open>The message loop, the sort and the per-channel selection\<close>

lemma collect_recent_takeWhile:
  "collect_recent ch c msgs acc = acc @ map (make_post ch) (takeWhile (\<lambda>m. c \<le> msg_date m) msgs)"
  by (induction msgs arbitrary: acc) simp_all

lemma length_sort_reverse: "length (sort_reverse key xs) = length xs"
  by (simp add: sort_reverse_def)

lemma set_sort_reverse: "set (sort_reverse key xs) = set xs"
  by (simp add: sort_reverse_def)

lemma sort_reverse_Nil_iff: "sort_reverse key xs = [] \<longleftrightarrow> xs = []"
  using length_sort_reverse [of key xs] by (metis length_0_conv)

lemma sorted_desc_sort_reverse:
  "sorted_wrt (\<lambda>x y. key y \<le> key x) (sort_reverse key xs)"
proof -
  have "sorted (map (\<lambda>x. - key x) (sort_reverse key xs))"
    unfolding sort_reverse_def by (rule sorted_sort_key)
  then show ?thesis by (simp add: sorted_map)
qed

lemma sort_reverse_stable:
  "filter (\<lambda>x. key x = k) (sort_reverse key xs) = filter (\<lambda>x. key x = k) xs"
proof -
  have "filter (\<lambda>x. - key x = - k) (sort_key (\<lambda>x. - key x) xs) = filter (\<lambda>x. - key x = - k) xs"
    by (rule sort_key_stable)
  then show ?thesis by (simp add: sort_reverse_def)
qed

lemma sort_reverse_sorted_id:
  assumes "sorted_wrt (\<lambda>x y. key y \<le> key x) xs"
  shows "sort_reverse key xs = xs"
proof -
  from assms have "sorted (map (\<lambda>x. - key x) xs)" by (simp add: sorted_map)
  then show ?thesis unfolding sort_reverse_def by (rule sort_key_id_if_sorted)
qed

lemma filter_take_prefix: "prefix (filter P (take n xs)) (filter P xs)"
proof -
  have "filter P xs = filter P (take n xs) @ filter P (drop n xs)"
    by (simp only: filter_append [symmetric] append_take_drop_id)
  then show ?thesis by (simp add: prefix_def)
qed

lemma posts_select_top:
  "posts (select_top fetched)
     = take (selected_posts (select_top fetched)) (sort_reverse interaction_score fetched)"
  by (simp add: select_top_def Let_def)

lemma length_posts_select_top:
  "length (posts (select_top fetched)) = selected_posts (select_top fetched)"
proof (cases "fetched = []")
  case True
  then show ?thesis by (simp add: select_top_def Let_def sort_reverse_def)
next
  case False
  then have "0 < length fetched" by simp
  then have "channel_top_count (length fetched) \<le> length fetched" by (rule channel_top_count_le)
  with False show ?thesis
    by (simp add: select_top_def Let_def sort_reverse_Nil_iff length_sort_reverse)
qed

lemma total_posts_select_top: "total_posts (select_top fetched) = length fetched"
  by (simp add: select_top_def Let_def sort_reverse_Nil_iff length_sort_reverse)

lemma selected_posts_select_top:
  "selected_posts (select_top fetched)
     = (if fetched = [] then 0 else channel_top_count (length fetched))"
  by (simp add: select_top_def Let_def sort_reverse_Nil_iff length_sort_reverse)

lemma error_select_top: "error (select_top fetched) = None"
  by (simp add: select_top_def Let_def)

section \<open>The window filter\<close>

lemma takeWhile_eq_filter_desc:
  assumes "sorted_wrt (\<lambda>a b. msg_date b \<le> msg_date a) msgs"
  shows "takeWhile (\<lambda>m. c \<le> msg_date m) msgs = filter (\<lambda>m. c \<le> msg_date m) msgs"
  using assms
proof (induction msgs)
  case Nil
  then show ?case by simp
next
  case (Cons m ms)
  show ?case
  proof (cases "c \<le> msg_date m")
    case True
    with Cons show ?thesis by simp
  next
    case False
    with Cons.prems have "\<forall>x\<in>set ms. \<not> c \<le> msg_date x" by auto
    then have "filter (\<lambda>m. c \<le> msg_date m) ms = []" by (simp add: filter_empty_conv)
    with False show ?thesis by simp
  qed
qed

text \<open>
  C2. The cutoff is 24 hours before \<open>now\<close>. The message loop keeps the longest initial
  run of messages dated at or after the cutoff, and nothing else: if the messages are
  \<open>pre @ m # rest\<close> with every message of \<open>pre\<close> at or after the cutoff and \<open>m\<close> before
  it, the posts are those of \<open>pre\<close>, whatever the dates in \<open>rest\<close>; if no message is before
  the cutoff, every message is kept. On a list ordered most recent first this is the same as
  filtering the whole list.
\<close>

theorem window_filter_prefix:
  "cutoff now = now - 86400000000
   \<and> collect_recent ch (cutoff now) msgs []
       = map (make_post ch) (takeWhile (\<lambda>m. cutoff now \<le> msg_date m) msgs)
   \<and> (\<forall>pre m rest. msgs = pre @ m # rest \<and> (\<forall>x\<in>set pre. cutoff now \<le> msg_date x)
          \<and> msg_date m < cutoff now
        \<longrightarrow> collect_recent ch (cutoff now) msgs [] = map (make_post ch) pre)
   \<and> ((\<forall>x\<in>set msgs. cutoff now \<le> msg_date x)
        \<longrightarrow> collect_recent ch (cutoff now) msgs [] = map (make_post ch) msgs)
   \<and> (sorted_wrt (\<lambda>a b. msg_date b \<le> msg_date a) msgs
        \<longrightarrow> collect_recent ch (cutoff now) msgs []
            = map (make_post ch) (filter (\<lambda>m. cutoff now \<le> msg_date m) msgs))"
proof (intro conjI allI impI)
  show "cutoff now = now - 86400000000" by (simp add: cutoff_def)
next
  show "collect_recent ch (cutoff now) msgs []
       = map (make_post ch) (takeWhile (\<lambda>m. cutoff now \<le> msg_date m) msgs)"
    by (simp add: collect_recent_takeWhile)
next
  fix pre m rest
  assume a: "msgs = pre @ m # rest \<and> (\<forall>x\<in>set pre. cutoff now \<le> msg_date x)
          \<and> msg_date m < cutoff now"
  then have "takeWhile (\<lambda>m. cutoff now \<le> msg_date m) msgs = pre"
    by (simp add: takeWhile_append2)
  then show "collect_recent ch (cutoff now) msgs [] = map (make_post ch) pre"
    by (simp add: collect_recent_takeWhile)
next
  assume "\<forall>x\<in>set msgs. cutoff now \<le> msg_date x"
  then have e: "takeWhile (\<lambda>m. cutoff now \<le> msg_date m) msgs = msgs"
    by (simp add: takeWhile_eq_all_conv)
  show "collect_recent ch (cutoff now) msgs [] = map (make_post ch) msgs"
    unfolding collect_recent_takeWhile e by simp
next
  assume "sorted_wrt (\<lambda>a b. msg_date b \<le> msg_date a) msgs"
  then show "collect_recent ch (cutoff now) msgs []
            = map (make_post ch) (filter (\<lambda>m. cutoff now \<le> msg_date m) msgs)"
    by (simp add: collect_recent_takeWhile takeWhile_eq_filter_desc)
qed

theorem window_filter_prefix_witness:
  "collect_recent (ustr ''news'') (cutoff 100000000000)
     [\<lparr>msg_id = 3, msg_date = 99999999999, msg_message = Some (ustr ''c''), msg_views = Some 7,
        msg_forwards = None, msg_media = False\<rparr>,
      \<lparr>msg_id = 2, msg_date = 5, msg_message = None, msg_views = None,
        msg_forwards = None, msg_media = True\<rparr>,
      \<lparr>msg_id = 1, msg_date = 99999999998, msg_message = Some (ustr ''a''), msg_views = Some 900,
        msg_forwards = Some 4, msg_media = False\<rparr>] []
   = [\<lparr>channel = ustr ''news'', text' = ustr ''c'', views = 7, forwards = 0, interaction_score = 7,
        date = 99999999999, id' = 3, has_media = False\<rparr>]"
proof -
  let ?m3 = "\<lparr>msg_id = 3, msg_date = 99999999999, msg_message = Some (ustr ''c''),
      msg_views = Some 7, msg_forwards = None, msg_media = False\<rparr>"
  let ?m2 = "\<lparr>msg_id = 2, msg_date = 5, msg_message = None, msg_views = None,
      msg_forwards = None, msg_media = True\<rparr>"
  let ?m1 = "\<lparr>msg_id = 1, msg_date = 99999999998, msg_message = Some (ustr ''a''),
      msg_views = Some 900, msg_forwards = Some 4, msg_media = False\<rparr>"
  note t = window_filter_prefix [of 100000000000 "ustr ''news''" "[?m3, ?m2, ?m1]"]
  from t have "\<forall>pre m rest. [?m3, ?m2, ?m1] = pre @ m # rest
          \<and> (\<forall>x\<in>set pre. cutoff 100000000000 \<le> msg_date x)
          \<and> msg_date m < cutoff 100000000000
        \<longrightarrow> collect_recent (ustr ''news'') (cutoff 100000000000) [?m3, ?m2, ?m1] []
            = map (make_post (ustr ''news'')) pre"
    by (elim conjE)
  then have "[?m3, ?m2, ?m1] = [?m3] @ ?m2 # [?m1]
          \<and> (\<forall>x\<in>set [?m3]. cutoff 100000000000 \<le> msg_date x)
          \<and> msg_date ?m2 < cutoff 100000000000
        \<longrightarrow> collect_recent (ustr ''news'') (cutoff 100000000000) [?m3, ?m2, ?m1] []
            = map (make_post (ustr ''news'')) [?m3]"
    by (elim allE [of _ "[?m3]"] allE [of _ "?m2"] allE [of _ "[?m1]"])
  then have "collect_recent (ustr ''news'') (cutoff 100000000000) [?m3, ?m2, ?m1] []
            = map (make_post (ustr ''news'')) [?m3]"
    by (simp add: cutoff_def)
  then show ?thesis
    by (simp add: make_post_def calculate_interaction_score_def)
qed

section \<open>The channel loop\<close>

lemma dict_process_channel:
  "all_posts_by_channel (process_channel cl l c st ch)
     = AList.update ch (channel_entry cl l c ch) (all_posts_by_channel st)"
  by (simp add: process_channel_def channel_entry_def split: sum.splits)

lemma map_of_process_channels:
  "map_of (all_posts_by_channel (process_channels cl l c st chs)) ch
     = (if ch \<in> set chs then Some (channel_entry cl l c ch)
        else map_of (all_posts_by_channel st) ch)"
proof (induction chs arbitrary: st)
  case Nil
  then show ?case by simp
next
  case (Cons x xs)
  show ?case
    by (simp add: Cons.IH dict_process_channel update_conv')
qed

lemma keys_process_channels:
  "fst ` set (all_posts_by_channel (process_channels cl l c st chs))
     = fst ` set (all_posts_by_channel st) \<union> set chs"
proof (induction chs arbitrary: st)
  case Nil
  then show ?case by simp
next
  case (Cons x xs)
  show ?case
    by (simp add: Cons.IH dict_process_channel dom_update)
qed

lemma distinct_process_channels:
  "distinct (map fst (all_posts_by_channel st))
     \<Longrightarrow> distinct (map fst (all_posts_by_channel (process_channels cl l c st chs)))"
proof (induction chs arbitrary: st)
  case Nil
  then show ?case by simp
next
  case (Cons x xs)
  from Cons.prems
  have "distinct (map fst (all_posts_by_channel (process_channel cl l c st x)))"
    by (simp add: dict_process_channel distinct_update)
  then show ?case by (simp add: Cons.IH)
qed

lemma distinct_analyse:
  "distinct (map fst (all_posts_by_channel (analyse cl channels l now)))"
  unfolding analyse_def by (rule distinct_process_channels) simp

lemma map_of_analyse:
  "map_of (all_posts_by_channel (analyse cl channels l now)) ch
     = (if ch \<in> set channels then Some (channel_entry cl l (cutoff now) ch) else None)"
  by (simp add: analyse_def map_of_process_channels)

lemma entries_analyse:
  assumes "(ch, e) \<in> set (all_posts_by_channel (analyse cl channels l now))"
  shows "ch \<in> set channels \<and> e = channel_entry cl l (cutoff now) ch"
proof -
  from assms distinct_analyse [of cl channels l now]
  have "map_of (all_posts_by_channel (analyse cl channels l now)) ch = Some e" by simp
  then show ?thesis by (simp add: map_of_analyse split: if_splits)
qed

lemma length_posts_channel_entry:
  "length (posts (channel_entry cl l c ch)) = selected_posts (channel_entry cl l c ch)"
  by (simp add: channel_entry_def failed_entry_def length_posts_select_top split: sum.splits)

lemma channel_posts_channel_entry:
  "p \<in> set (posts (channel_entry cl l c ch)) \<Longrightarrow> channel p = ch"
proof -
  assume a: "p \<in> set (posts (channel_entry cl l c ch))"
  show ?thesis
  proof (cases "fetch_channel cl ch l")
    case (Inl e)
    with a show ?thesis by (simp add: channel_entry_def failed_entry_def)
  next
    case (Inr msgs)
    with a have "p \<in> set (take (selected_posts (select_top (collect_recent ch c msgs [])))
        (sort_reverse interaction_score (collect_recent ch c msgs [])))"
      by (simp add: channel_entry_def posts_select_top)
    then have "p \<in> set (sort_reverse interaction_score (collect_recent ch c msgs []))"
      by (rule in_set_takeD)
    then have "p \<in> set (collect_recent ch c msgs [])" by (simp only: set_sort_reverse)
    then show ?thesis by (auto simp add: collect_recent_takeWhile make_post_def Let_def)
  qed
qed

text \<open>
  C1. For a channel of the run whose fetch succeeds and whose window-filtered list has \<open>n\<close>
  posts, the entry recorded for the channel has \<open>total_posts = n\<close>, a selected count of
  \<open>max(1, ceil(n * 0.2))\<close> when \<open>n > 0\<close> and of \<open>0\<close> when \<open>n = 0\<close>, and a list of
  selected posts of exactly that length. The count is computed in double precision by the
  code and is compared here with the exact ceiling; the two agree for every length below
  \<open>2^51\<close>, far beyond what a list in memory can hold.
\<close>

theorem selected_count_per_channel:
  assumes "ch \<in> set channels"
    and "fetch_channel cl ch limit_per_channel = Inr messages"
    and "n = length (collect_recent ch (cutoff now) messages [])"
    and "n < 2 ^ 51"
  shows "\<exists>entry. map_of (all_posts_by_channel (analyse cl channels limit_per_channel now)) ch
                  = Some entry
           \<and> total_posts entry = n
           \<and> selected_posts entry = (if n = 0 then 0 else max 1 (nat \<lceil>real n * 0.2\<rceil>))
           \<and> length (posts entry) = selected_posts entry"
proof -
  let ?entry = "channel_entry cl limit_per_channel (cutoff now) ch"
  from assms(1) have m: "map_of (all_posts_by_channel (analyse cl channels limit_per_channel now)) ch
      = Some ?entry" by (simp add: map_of_analyse)
  from assms(2) have e: "?entry = select_top (collect_recent ch (cutoff now) messages [])"
    by (simp add: channel_entry_def)
  from e assms(3) have t: "total_posts ?entry = n" by (simp add: total_posts_select_top)
  have s: "selected_posts ?entry = (if n = 0 then 0 else max 1 (nat \<lceil>real n * 0.2\<rceil>))"
  proof (cases "n = 0")
    case True
    with e assms(3) show ?thesis by (simp add: selected_posts_select_top)
  next
    case False
    then have n0: "0 < n" by simp
    from n0 have "1 \<le> (n + 4) div 5" by presburger
    then have mx: "max 1 ((n + 4) div 5) = (n + 4) div 5" by simp
    from False assms(3) have ne: "collect_recent ch (cutoff now) messages [] \<noteq> []" by auto
    have "selected_posts ?entry = channel_top_count (length (collect_recent ch (cutoff now) messages []))"
      unfolding e using ne by (simp add: selected_posts_select_top)
    also have "\<dots> = channel_top_count n" by (simp only: assms(3))
    also have "\<dots> = (n + 4) div 5" by (rule channel_top_count_exact [OF n0 assms(4)])
    also have "\<dots> = max 1 (nat \<lceil>real n * 0.2\<rceil>)" by (simp only: ceiling_fifth mx)
    finally show ?thesis using False by simp
  qed
  have len: "length (posts ?entry) = selected_posts ?entry" by (rule length_posts_channel_entry)
  from m t s len show ?thesis by blast
qed

theorem selected_count_per_channel_witness:
  "\<exists>entry.
     map_of (all_posts_by_channel
        (analyse \<lparr>get_entity = Inr,
                  get_messages = (\<lambda>(entity::pystr) limit. Inr (map (\<lambda>i.
                     \<lparr>msg_id = i, msg_date = 100, msg_message = None, msg_views = Some i,
                      msg_forwards = None, msg_media = False\<rparr>) [1, 2, 3, 4, 5, 6]))\<rparr>
           [ustr ''news''] 50 100)) (ustr ''news'') = Some entry
     \<and> total_posts entry = 6 \<and> selected_posts entry = 2 \<and> length (posts entry) = 2"
proof -
  let ?msgs = "map (\<lambda>i. \<lparr>msg_id = i, msg_date = 100, msg_message = None, msg_views = Some i,
                      msg_forwards = None, msg_media = False\<rparr>) [1, 2, 3, 4, 5, 6]"
  let ?cl = "\<lparr>get_entity = Inr, get_messages = (\<lambda>(entity::pystr) limit. Inr ?msgs)\<rparr>"
  have h1: "ustr ''news'' \<in> set [ustr ''news'']" by simp
  have h2: "fetch_channel ?cl (ustr ''news'') 50 = Inr ?msgs" by (simp add: fetch_channel_def)
  have h3: "6 = length (collect_recent (ustr ''news'') (cutoff 100) ?msgs [])"
    by (simp add: cutoff_def)
  have h4: "(6::nat) < 2 ^ 51" by simp
  from selected_count_per_channel [OF h1 h2 h3 h4]
  obtain entry where
    "map_of (all_posts_by_channel (analyse ?cl [ustr ''news''] 50 100)) (ustr ''news'') = Some entry"
    and "total_posts entry = 6"
    and s: "selected_posts entry = (if (6::nat) = 0 then 0 else max 1 (nat \<lceil>real 6 * 0.2\<rceil>))"
    and l: "length (posts entry) = selected_posts entry"
    by blast
  moreover from s have "selected_posts entry = 2" by simp
  moreover from this l have "length (posts entry) = 2" by simp
  ultimately show ?thesis by blast
qed

text \<open>
  C3. The posts selected for a channel are in descending order of \<open>interaction_score\<close>, and
  posts of equal score keep their order of the input: for every score, the selected posts of
  that score are an initial segment of the input's posts of that score. The selection is the
  first \<open>selected_posts\<close> elements of the stably sorted input.
\<close>

theorem select_top_sorted_stable:
  "sorted_wrt (\<lambda>p q. interaction_score q \<le> interaction_score p) (posts (select_top fetched))
   \<and> (\<forall>k. prefix (filter (\<lambda>p. interaction_score p = k) (posts (select_top fetched)))
                  (filter (\<lambda>p. interaction_score p = k) fetched))
   \<and> posts (select_top fetched)
       = take (selected_posts (select_top fetched)) (sort_reverse interaction_score fetched)
   \<and> (\<forall>k. filter (\<lambda>p. interaction_score p = k) (sort_reverse interaction_score fetched)
          = filter (\<lambda>p. interaction_score p = k) fetched)"
proof (intro conjI allI)
  show "sorted_wrt (\<lambda>p q. interaction_score q \<le> interaction_score p) (posts (select_top fetched))"
    unfolding posts_select_top by (rule sorted_wrt_take) (rule sorted_desc_sort_reverse)
next
  fix k
  have "prefix (filter (\<lambda>p. interaction_score p = k)
          (take (selected_posts (select_top fetched)) (sort_reverse interaction_score fetched)))
        (filter (\<lambda>p. interaction_score p = k) (sort_reverse interaction_score fetched))"
    by (rule filter_take_prefix)
  then show "prefix (filter (\<lambda>p. interaction_score p = k) (posts (select_top fetched)))
                  (filter (\<lambda>p. interaction_score p = k) fetched)"
    by (simp only: posts_select_top sort_reverse_stable)
next
  show "posts (select_top fetched)
       = take (selected_posts (select_top fetched)) (sort_reverse interaction_score fetched)"
    by (rule posts_select_top)
next
  fix k
  show "filter (\<lambda>p. interaction_score p = k) (sort_reverse interaction_score fetched)
          = filter (\<lambda>p. interaction_score p = k) fetched"
    by (rule sort_reverse_stable)
qed

theorem select_top_sorted_stable_witness:
  "posts (select_top (map (\<lambda>(i, s).
        \<lparr>channel = ustr ''news'', text' = [], views = s, forwards = 0, interaction_score = s,
         date = 100, id' = i, has_media = False\<rparr>)
        [(1, 5), (2, 9), (3, 5), (4, 9), (5, 1), (6, 9)]))
   = map (\<lambda>(i, s).
        \<lparr>channel = ustr ''news'', text' = [], views = s, forwards = 0, interaction_score = s,
         date = 100, id' = i, has_media = False\<rparr>) [(2, 9), (4, 9)]
   \<and> sorted_wrt (\<lambda>p q. interaction_score q \<le> interaction_score p)
       (posts (select_top (map (\<lambda>(i, s).
        \<lparr>channel = ustr ''news'', text' = [], views = s, forwards = 0, interaction_score = s,
         date = 100, id' = i, has_media = False\<rparr>)
        [(1, 5), (2, 9), (3, 5), (4, 9), (5, 1), (6, 9)])))
   \<and> prefix (filter (\<lambda>p. interaction_score p = 9)
        (posts (select_top (map (\<lambda>(i, s).
        \<lparr>channel = ustr ''news'', text' = [], views = s, forwards = 0, interaction_score = s,
         date = 100, id' = i, has_media = False\<rparr>)
        [(1, 5), (2, 9), (3, 5), (4, 9), (5, 1), (6, 9)]))))
       (map (\<lambda>(i, s).
        \<lparr>channel = ustr ''news'', text' = [], views = s, forwards = 0, interaction_score = s,
         date = 100, id' = i, has_media = False\<rparr>) [(2, 9), (4, 9), (6, 9)])"
proof -
  let ?mk = "\<lambda>(i, s). \<lparr>channel = ustr ''news'', text' = [], views = s, forwards = 0,
      interaction_score = s, date = 100, id' = i, has_media = False\<rparr>"
  let ?ex = "map ?mk [(1, 5), (2, 9), (3, 5), (4, 9), (5, 1), (6, 9)]"
  note t = select_top_sorted_stable [of ?ex]
  have a: "posts (select_top ?ex) = map ?mk [(2, 9), (4, 9)]"
    by (simp add: select_top_def sort_reverse_def channel_top_count_exact)
  from t have b: "sorted_wrt (\<lambda>p q. interaction_score q \<le> interaction_score p)
      (posts (select_top ?ex))" by (rule conjunct1)
  from t have "prefix (filter (\<lambda>p. interaction_score p = 9) (posts (select_top ?ex)))
      (filter (\<lambda>p. interaction_score p = 9) ?ex)" by blast
  moreover have "filter (\<lambda>p. interaction_score p = 9) ?ex = map ?mk [(2, 9), (4, 9), (6, 9)]"
    by simp
  ultimately have c: "prefix (filter (\<lambda>p. interaction_score p = 9) (posts (select_top ?ex)))
      (map ?mk [(2, 9), (4, 9), (6, 9)])" by (simp only:)
  from a b c show ?thesis by (intro conjI)
qed

section \<open>The merge and the snapshot\<close>

lemma combine_eq:
  "combine d (a, x, y)
     = (a @ concat (map (\<lambda>(ch, data). posts data) d),
        x + sum_list (map (\<lambda>(ch, data). total_posts data) d),
        y + sum_list (map (\<lambda>(ch, data). selected_posts data) d))"
  by (induction d arbitrary: a x y) auto

lemma returned_fetch:
  "returned (fetch_top_posts_with_client cl channels l now write_file)
     = sort_reverse interaction_score
         (concat (map (\<lambda>(ch, data). posts data)
            (all_posts_by_channel (analyse cl channels l now))))"
  by (simp add: fetch_top_posts_with_client_def Let_def combine_eq split: option.splits)

lemma snapshot_fetch:
  assumes "snapshot_file (fetch_top_posts_with_client cl channels l now write_file) = Some d"
  shows "final_selected_posts d = returned (fetch_top_posts_with_client cl channels l now write_file)"
    and "total_posts_selected d
           = sum_list (map (\<lambda>(ch, data). selected_posts data)
               (all_posts_by_channel (analyse cl channels l now)))"
    and "channels_analysis d = all_posts_by_channel (analyse cl channels l now)"
    and "logged (fetch_top_posts_with_client cl channels l now write_file)
           = errors_logged (analyse cl channels l now)"
  using assms
  by (auto simp add: fetch_top_posts_with_client_def Let_def combine_eq split: option.splits)


lemma write_fails_no_snapshot:
  assumes "\<forall>d. write_file d \<noteq> None"
  shows "snapshot_file (fetch_top_posts_with_client cl channels l now write_file) = None"
  using assms
  by (auto simp add: fetch_top_posts_with_client_def Let_def combine_eq split: option.splits)

lemma length_concat_posts:
  assumes "\<forall>(ch, data)\<in>set d. length (posts data) = selected_posts data"
  shows "length (concat (map (\<lambda>(ch, data). posts data) d))
           = sum_list (map (\<lambda>(ch, data). selected_posts data) d)"
  using assms by (induction d) auto

lemma entries_analyse_length:
  "\<forall>(ch, data)\<in>set (all_posts_by_channel (analyse cl channels l now)).
      length (posts data) = selected_posts data"
proof (clarify)
  fix ch data
  assume "(ch, data) \<in> set (all_posts_by_channel (analyse cl channels l now))"
  then have "data = channel_entry cl l (cutoff now) ch" by (simp add: entries_analyse)
  then show "length (posts data) = selected_posts data"
    by (simp only: length_posts_channel_entry)
qed

lemma analyse_as_map:
  "all_posts_by_channel (analyse cl channels l now)
     = map (\<lambda>ch. (ch, channel_entry cl l (cutoff now) ch))
         (map fst (all_posts_by_channel (analyse cl channels l now)))"
proof -
  have "map (\<lambda>x. (fst x, channel_entry cl l (cutoff now) (fst x)))
          (all_posts_by_channel (analyse cl channels l now))
        = map (\<lambda>x. x) (all_posts_by_channel (analyse cl channels l now))"
  proof (rule map_cong [OF refl])
    fix x
    assume "x \<in> set (all_posts_by_channel (analyse cl channels l now))"
    then have "(fst x, snd x) \<in> set (all_posts_by_channel (analyse cl channels l now))" by simp
    then have "snd x = channel_entry cl l (cutoff now) (fst x)" by (simp only: entries_analyse)
    then show "(fst x, channel_entry cl l (cutoff now) (fst x)) = x" by (cases x) simp
  qed
  then show ?thesis by (simp add: comp_def)
qed

lemma keys_analyse:
  "set (map fst (all_posts_by_channel (analyse cl channels l now))) = set channels"
  using keys_process_channels [of cl l "cutoff now" "\<lparr>all_posts_by_channel = [], errors_logged = []\<rparr>" channels]
  by (simp add: analyse_def)

lemma sum_selected_analyse:
  "sum_list (map (\<lambda>(ch, data). selected_posts data)
      (all_posts_by_channel (analyse cl channels l now)))
   = (\<Sum>ch\<in>set channels. selected_posts (channel_entry cl l (cutoff now) ch))"
proof -
  let ?keys = "map fst (all_posts_by_channel (analyse cl channels l now))"
  have "sum_list (map (\<lambda>(ch, data). selected_posts data)
      (all_posts_by_channel (analyse cl channels l now)))
    = sum_list (map (\<lambda>(ch, data). selected_posts data)
        (map (\<lambda>ch. (ch, channel_entry cl l (cutoff now) ch)) ?keys))"
    by (subst analyse_as_map) (rule refl)
  also have "\<dots> = sum_list (map (\<lambda>ch. selected_posts (channel_entry cl l (cutoff now) ch)) ?keys)"
    by (simp add: comp_def)
  also have "\<dots> = (\<Sum>ch\<in>set ?keys. selected_posts (channel_entry cl l (cutoff now) ch))"
    by (rule sum_list_distinct_conv_sum_set) (rule distinct_analyse)
  also have "\<dots> = (\<Sum>ch\<in>set channels. selected_posts (channel_entry cl l (cutoff now) ch))"
    by (simp only: keys_analyse)
  finally show ?thesis .
qed

lemma sample_analyse:
  "analyse sample_client [ustr ''a'', ustr ''c'', ustr ''b''] 50 100
   = \<lparr>all_posts_by_channel =
        [(ustr ''a'', \<lparr>total_posts = 6, selected_posts = 2,
            posts = [sample_post (ustr ''a'') 2 9, sample_post (ustr ''a'') 4 9], error = None\<rparr>),
         (ustr ''c'', \<lparr>total_posts = 0, selected_posts = 0, posts = [],
            error = Some (ustr ''not found'')\<rparr>),
         (ustr ''b'', \<lparr>total_posts = 1, selected_posts = 1,
            posts = [sample_post (ustr ''b'') 7 9], error = None\<rparr>)],
      errors_logged = [FetchFailed (ustr ''c'') (ustr ''not found'')]\<rparr>"
  by (simp add: analyse_def process_channel_def fetch_channel_def cutoff_def
      select_top_def sort_reverse_def channel_top_count_exact make_post_def
      calculate_interaction_score_def failed_entry_def ustr_def)

lemma sample_returned:
  "returned (fetch_top_posts_with_client sample_client [ustr ''a'', ustr ''c'', ustr ''b'']
      50 100 write_file)
   = [sample_post (ustr ''a'') 2 9, sample_post (ustr ''a'') 4 9, sample_post (ustr ''b'') 7 9]"
  by (simp add: returned_fetch sample_analyse sort_reverse_def)

text \<open>
  C4. The list returned is the concatenation of the selections of all channels, in the order
  of the entries of \<open>all_posts_by_channel\<close>, sorted again in descending order of
  \<open>interaction_score\<close> by the same stable sort: posts of equal score keep the order they have
  in the concatenation. Its length is the sum of the selected counts of the entries, which is
  the sum of the selected counts over the channels of the run and the
  \<open>total_posts_selected\<close> written to the snapshot.
\<close>

theorem global_merge:
  fixes cl :: "'e client" and channels limit_per_channel now write_file
  defines "st \<equiv> analyse cl channels limit_per_channel now"
    and "r \<equiv> fetch_top_posts_with_client cl channels limit_per_channel now write_file"
  shows "returned r = sort_reverse interaction_score
             (concat (map (\<lambda>(ch, data). posts data) (all_posts_by_channel st)))
       \<and> sorted_wrt (\<lambda>p q. interaction_score q \<le> interaction_score p) (returned r)
       \<and> (\<forall>k. filter (\<lambda>p. interaction_score p = k) (returned r)
              = filter (\<lambda>p. interaction_score p = k)
                  (concat (map (\<lambda>(ch, data). posts data) (all_posts_by_channel st))))
       \<and> length (returned r)
           = sum_list (map (\<lambda>(ch, data). selected_posts data) (all_posts_by_channel st))
       \<and> length (returned r)
           = (\<Sum>ch\<in>set channels.
                selected_posts (channel_entry cl limit_per_channel (cutoff now) ch))
       \<and> (\<forall>d. snapshot_file r = Some d \<longrightarrow>
              total_posts_selected d = length (returned r) \<and> final_selected_posts d = returned r)"
proof -
  let ?merged = "concat (map (\<lambda>(ch, data). posts data) (all_posts_by_channel st))"
  have ret: "returned r = sort_reverse interaction_score ?merged"
    unfolding r_def st_def by (rule returned_fetch)
  have srt: "sorted_wrt (\<lambda>p q. interaction_score q \<le> interaction_score p) (returned r)"
    unfolding ret by (rule sorted_desc_sort_reverse)
  have stab: "filter (\<lambda>p. interaction_score p = k) (returned r)
              = filter (\<lambda>p. interaction_score p = k) ?merged" for k
    unfolding ret by (rule sort_reverse_stable)
  have "length (returned r) = length ?merged"
    unfolding ret by (rule length_sort_reverse)
  also have "\<dots> = sum_list (map (\<lambda>(ch, data). selected_posts data) (all_posts_by_channel st))"
    unfolding st_def by (rule length_concat_posts) (rule entries_analyse_length)
  finally have len: "length (returned r)
      = sum_list (map (\<lambda>(ch, data). selected_posts data) (all_posts_by_channel st))" .
  have len': "length (returned r)
      = (\<Sum>ch\<in>set channels. selected_posts (channel_entry cl limit_per_channel (cutoff now) ch))"
    unfolding len st_def by (rule sum_selected_analyse)
  have snap: "total_posts_selected d = length (returned r) \<and> final_selected_posts d = returned r"
    if "snapshot_file r = Some d" for d
  proof -
    from that have s: "snapshot_file
        (fetch_top_posts_with_client cl channels limit_per_channel now write_file) = Some d"
      by (simp only: r_def)
    from snapshot_fetch(1) [OF s] have "final_selected_posts d = returned r" by (simp only: r_def)
    moreover from snapshot_fetch(2) [OF s] have "total_posts_selected d = length (returned r)"
      by (simp only: len st_def)
    ultimately show ?thesis by simp
  qed
  from ret srt stab len len' snap show ?thesis by blast
qed

theorem global_merge_witness:
  "returned (fetch_top_posts_with_client sample_client [ustr ''a'', ustr ''c'', ustr ''b'']
      50 100 (\<lambda>d. None))
     = [sample_post (ustr ''a'') 2 9, sample_post (ustr ''a'') 4 9, sample_post (ustr ''b'') 7 9]
   \<and> length (returned (fetch_top_posts_with_client sample_client
        [ustr ''a'', ustr ''c'', ustr ''b''] 50 100 (\<lambda>d. None))) = 2 + 0 + 1
   \<and> (\<exists>d. snapshot_file (fetch_top_posts_with_client sample_client
        [ustr ''a'', ustr ''c'', ustr ''b''] 50 100 (\<lambda>d. None)) = Some d
        \<and> total_posts_selected d = 3)"
proof -
  let ?r = "fetch_top_posts_with_client sample_client [ustr ''a'', ustr ''c'', ustr ''b'']
      50 100 (\<lambda>d. None)"
  note t = global_merge [of sample_client "[ustr ''a'', ustr ''c'', ustr ''b'']" 50 100
      "\<lambda>d. None"]
  from t have "returned ?r = sort_reverse interaction_score
      (concat (map (\<lambda>(ch, data). posts data) (all_posts_by_channel
        (analyse sample_client [ustr ''a'', ustr ''c'', ustr ''b''] 50 100))))"
    by (rule conjunct1)
  then have a: "returned ?r
     = [sample_post (ustr ''a'') 2 9, sample_post (ustr ''a'') 4 9, sample_post (ustr ''b'') 7 9]"
    by (simp add: sample_analyse sort_reverse_def)
  from t have "length (returned ?r) = sum_list (map (\<lambda>(ch, data). selected_posts data)
      (all_posts_by_channel (analyse sample_client [ustr ''a'', ustr ''c'', ustr ''b''] 50 100)))"
    by blast
  then have b: "length (returned ?r) = 2 + 0 + 1" by (simp add: sample_analyse)
  obtain d where d: "snapshot_file ?r = Some d"
    by (simp add: fetch_top_posts_with_client_def Let_def combine_eq)
  from t d have "total_posts_selected d = length (returned ?r)" by blast
  with b have "total_posts_selected d = 3" by simp
  with d have c: "\<exists>d. snapshot_file ?r = Some d \<and> total_posts_selected d = 3" by blast
  from a b c show ?thesis by (intro conjI)
qed



section \<open>A failing fetch\<close>

lemma dict_process_channels_foldl:
  "all_posts_by_channel (process_channels cl l c st chs)
     = foldl (\<lambda>d x. AList.update x (channel_entry cl l c x) d) (all_posts_by_channel st) chs"
  by (induction chs arbitrary: st) (simp_all add: dict_process_channel)

lemma delete_foldl_update:
  "AList.delete ch (foldl (\<lambda>d x. AList.update x (f x) d) d chs)
     = foldl (\<lambda>d x. AList.update x (f x) d) (AList.delete ch d) (removeAll ch chs)"
  by (induction chs arbitrary: d) (simp_all add: delete_update_same delete_update)

lemma dict_analyse_removeAll:
  "all_posts_by_channel (analyse cl (removeAll ch channels) l now)
     = AList.delete ch (all_posts_by_channel (analyse cl channels l now))"
  by (simp add: analyse_def dict_process_channels_foldl delete_foldl_update)

lemma errors_logged_process_channels:
  "errors_logged (process_channels cl l c st chs)
     = errors_logged st @ concat (map (\<lambda>x. case fetch_channel cl x l of
           Inl e \<Rightarrow> [FetchFailed x e] | Inr messages \<Rightarrow> []) chs)"
  by (induction chs arbitrary: st) (simp_all add: process_channel_def split: sum.splits)

lemma failure_logged:
  assumes "ch \<in> set channels" and "fetch_channel cl ch l = Inl e"
  shows "FetchFailed ch e \<in> set (errors_logged (analyse cl channels l now))"
proof -
  from assms have "FetchFailed ch e \<in> set (case fetch_channel cl ch l of
           Inl e \<Rightarrow> [FetchFailed ch e] | Inr messages \<Rightarrow> [])" by simp
  with assms(1) show ?thesis
    unfolding analyse_def errors_logged_process_channels by auto
qed

lemma logged_fetch:
  "set (errors_logged (analyse cl channels l now))
     \<subseteq> set (logged (fetch_top_posts_with_client cl channels l now write_file))"
  by (auto simp add: fetch_top_posts_with_client_def Let_def combine_eq split: option.splits)

lemma concat_posts_delete:
  assumes "\<forall>(k, data)\<in>set d. k = ch \<longrightarrow> posts data = []"
  shows "concat (map (\<lambda>(k, data). posts data) (AList.delete ch d))
           = concat (map (\<lambda>(k, data). posts data) d)"
  using assms by (induction d) (auto simp add: AList.delete_eq)

lemma returned_channels:
  assumes "p \<in> set (returned (fetch_top_posts_with_client cl channels l now write_file))"
  shows "channel p \<in> set channels
       \<and> p \<in> set (posts (channel_entry cl l (cutoff now) (channel p)))"
proof -
  from assms have "p \<in> set (concat (map (\<lambda>(ch, data). posts data)
      (all_posts_by_channel (analyse cl channels l now))))"
    by (simp only: returned_fetch set_sort_reverse)
  then obtain k data where kd: "(k, data) \<in> set (all_posts_by_channel (analyse cl channels l now))"
    and p: "p \<in> set (posts data)" by auto
  from entries_analyse [OF kd] have k: "k \<in> set channels"
    and d: "data = channel_entry cl l (cutoff now) k" by simp_all
  from p d have "channel p = k" by (simp add: channel_posts_channel_entry)
  with k p d show ?thesis by simp
qed

lemma fetch_channel_failure_isolated:
  fixes cl :: "'e client" and channels limit_per_channel now write_file
  defines "st \<equiv> analyse cl channels limit_per_channel now"
    and "r \<equiv> fetch_top_posts_with_client cl channels limit_per_channel now write_file"
  assumes "ch \<in> set channels" and "fetch_channel cl ch limit_per_channel = Inl e"
  shows "map_of (all_posts_by_channel st) ch
           = Some \<lparr>total_posts = 0, selected_posts = 0, posts = [], error = Some e\<rparr>
       \<and> FetchFailed ch e \<in> set (logged r)
       \<and> (\<forall>s rest. process_channels cl limit_per_channel (cutoff now) s (ch # rest)
             = process_channels cl limit_per_channel (cutoff now)
                 (s\<lparr>all_posts_by_channel :=
                      AList.update ch
                        \<lparr>total_posts = 0, selected_posts = 0, posts = [], error = Some e\<rparr>
                        (all_posts_by_channel s),
                    errors_logged := errors_logged s @ [FetchFailed ch e]\<rparr>) rest)
       \<and> (\<forall>ch'\<in>set channels. map_of (all_posts_by_channel st) ch'
             = Some (channel_entry cl limit_per_channel (cutoff now) ch'))
       \<and> (\<forall>p\<in>set (returned r). channel p \<noteq> ch)
       \<and> returned r = returned (fetch_top_posts_with_client cl (removeAll ch channels)
             limit_per_channel now write_file)"
proof (intro conjI allI ballI)
  from assms(4) have fe: "channel_entry cl limit_per_channel (cutoff now) ch
      = \<lparr>total_posts = 0, selected_posts = 0, posts = [], error = Some e\<rparr>"
    by (simp add: channel_entry_def failed_entry_def)
  from assms(3) show "map_of (all_posts_by_channel st) ch
      = Some \<lparr>total_posts = 0, selected_posts = 0, posts = [], error = Some e\<rparr>"
    unfolding st_def by (simp add: map_of_analyse fe)
  from failure_logged [OF assms(3) assms(4)] logged_fetch
  show "FetchFailed ch e \<in> set (logged r)" unfolding r_def by blast
  show "process_channels cl limit_per_channel (cutoff now) s (ch # rest)
             = process_channels cl limit_per_channel (cutoff now)
                 (s\<lparr>all_posts_by_channel :=
                      AList.update ch
                        \<lparr>total_posts = 0, selected_posts = 0, posts = [], error = Some e\<rparr>
                        (all_posts_by_channel s),
                    errors_logged := errors_logged s @ [FetchFailed ch e]\<rparr>) rest" for s rest
    using assms(4) by (simp add: process_channel_def failed_entry_def)
  show "map_of (all_posts_by_channel st) ch'
      = Some (channel_entry cl limit_per_channel (cutoff now) ch')" if "ch' \<in> set channels" for ch'
    using that unfolding st_def by (simp add: map_of_analyse)
  show "channel p \<noteq> ch" if "p \<in> set (returned r)" for p
  proof
    assume c: "channel p = ch"
    from that have "p \<in> set (posts (channel_entry cl limit_per_channel (cutoff now) (channel p)))"
      unfolding r_def by (simp add: returned_channels)
    with c fe show False by simp
  qed
  have "\<forall>(k, data)\<in>set (all_posts_by_channel (analyse cl channels limit_per_channel now)).
      k = ch \<longrightarrow> posts data = []"
  proof (clarify)
    fix data
    assume "(ch, data) \<in> set (all_posts_by_channel (analyse cl channels limit_per_channel now))"
    then have "data = channel_entry cl limit_per_channel (cutoff now) ch"
      by (simp add: entries_analyse)
    with fe show "posts data = []" by simp
  qed
  then have "concat (map (\<lambda>(k, data). posts data)
        (AList.delete ch (all_posts_by_channel (analyse cl channels limit_per_channel now))))
      = concat (map (\<lambda>(k, data). posts data)
        (all_posts_by_channel (analyse cl channels limit_per_channel now)))"
    by (rule concat_posts_delete)
  then show "returned r = returned (fetch_top_posts_with_client cl (removeAll ch channels)
             limit_per_channel now write_file)"
    unfolding r_def by (simp only: returned_fetch dict_analyse_removeAll)
qed

lemma fetch_channel_raises:
  "fetch_channel cl ch l = Inl e \<longleftrightarrow>
     get_entity cl ch = Inl e
     \<or> (\<exists>entity. get_entity cl ch = Inr entity \<and> get_messages cl entity l = Inl e)"
  by (auto simp add: fetch_channel_def split: sum.splits)

lemma fetch_channel_returns:
  "fetch_channel cl ch l = Inr messages \<longleftrightarrow>
     (\<exists>entity. get_entity cl ch = Inr entity \<and> get_messages cl entity l = Inr messages)"
  by (auto simp add: fetch_channel_def split: sum.splits)

text \<open>
  C7. When \<open>get_entity\<close> or \<open>get_messages\<close> raises with text \<open>e\<close> for a channel of the
  run: the loop body stores for the channel the entry with zero total posts, zero selected
  posts, no posts and the error \<open>e\<close>, logs the failure, and goes on with the rest of the
  list. At the end the channel still has that entry; every other channel of the run has the
  entry of its own fetch: the selection from its window-filtered messages when both calls
  return, the error entry and a logged failure when one of them raises; no returned post is
  from the failed channel, and the returned list is the one of the run without that channel.
  The function has no other exit: it returns its result. The client answers a channel the
  same way each time the run asks it.
\<close>

theorem fetch_failure_isolated:
  fixes cl :: "'e client" and channels limit_per_channel now write_file
  defines "st \<equiv> analyse cl channels limit_per_channel now"
    and "r \<equiv> fetch_top_posts_with_client cl channels limit_per_channel now write_file"
  assumes "ch \<in> set channels"
    and "get_entity cl ch = Inl e
         \<or> (\<exists>entity. get_entity cl ch = Inr entity
               \<and> get_messages cl entity limit_per_channel = Inl e)"
  shows "map_of (all_posts_by_channel st) ch
           = Some \<lparr>total_posts = 0, selected_posts = 0, posts = [], error = Some e\<rparr>
       \<and> FetchFailed ch e \<in> set (logged r)
       \<and> (\<forall>s rest. process_channels cl limit_per_channel (cutoff now) s (ch # rest)
             = process_channels cl limit_per_channel (cutoff now)
                 (s\<lparr>all_posts_by_channel :=
                      AList.update ch
                        \<lparr>total_posts = 0, selected_posts = 0, posts = [], error = Some e\<rparr>
                        (all_posts_by_channel s),
                    errors_logged := errors_logged s @ [FetchFailed ch e]\<rparr>) rest)
       \<and> (\<forall>ch'\<in>set channels. map_of (all_posts_by_channel st) ch'
             = Some (channel_entry cl limit_per_channel (cutoff now) ch'))
       \<and> (\<forall>ch'\<in>set channels. \<forall>entity messages.
             get_entity cl ch' = Inr entity
             \<and> get_messages cl entity limit_per_channel = Inr messages
             \<longrightarrow> map_of (all_posts_by_channel st) ch'
                 = Some (select_top (collect_recent ch' (cutoff now) messages [])))
       \<and> (\<forall>ch'\<in>set channels. \<forall>e'.
             get_entity cl ch' = Inl e'
             \<or> (\<exists>entity. get_entity cl ch' = Inr entity
                   \<and> get_messages cl entity limit_per_channel = Inl e')
             \<longrightarrow> map_of (all_posts_by_channel st) ch'
                   = Some \<lparr>total_posts = 0, selected_posts = 0, posts = [], error = Some e'\<rparr>
                 \<and> FetchFailed ch' e' \<in> set (logged r))
       \<and> (\<forall>p\<in>set (returned r). channel p \<noteq> ch)
       \<and> returned r = returned (fetch_top_posts_with_client cl (removeAll ch channels)
             limit_per_channel now write_file)"
proof -
  from assms(4) have fc: "fetch_channel cl ch limit_per_channel = Inl e"
    by (simp only: fetch_channel_raises)
  note old = fetch_channel_failure_isolated [where cl = cl and channels = channels
      and limit_per_channel = limit_per_channel and now = now and write_file = write_file,
      OF assms(3) fc]
  have ok: "map_of (all_posts_by_channel st) ch'
        = Some (select_top (collect_recent ch' (cutoff now) messages []))"
    if "ch' \<in> set channels" and "get_entity cl ch' = Inr entity
        \<and> get_messages cl entity limit_per_channel = Inr messages" for ch' entity messages
  proof -
    from that(2) have "fetch_channel cl ch' limit_per_channel = Inr messages"
      by (auto simp add: fetch_channel_returns)
    then have "channel_entry cl limit_per_channel (cutoff now) ch'
        = select_top (collect_recent ch' (cutoff now) messages [])"
      by (simp add: channel_entry_def)
    with that(1) show ?thesis unfolding st_def by (simp add: map_of_analyse)
  qed
  have bad: "map_of (all_posts_by_channel st) ch'
        = Some \<lparr>total_posts = 0, selected_posts = 0, posts = [], error = Some e'\<rparr>
      \<and> FetchFailed ch' e' \<in> set (logged r)"
    if "ch' \<in> set channels" and "get_entity cl ch' = Inl e'
        \<or> (\<exists>entity. get_entity cl ch' = Inr entity
              \<and> get_messages cl entity limit_per_channel = Inl e')" for ch' e'
  proof -
    from that(2) have f: "fetch_channel cl ch' limit_per_channel = Inl e'"
      by (simp only: fetch_channel_raises)
    then have "channel_entry cl limit_per_channel (cutoff now) ch'
        = \<lparr>total_posts = 0, selected_posts = 0, posts = [], error = Some e'\<rparr>"
      by (simp add: channel_entry_def failed_entry_def)
    with that(1) have "map_of (all_posts_by_channel st) ch'
        = Some \<lparr>total_posts = 0, selected_posts = 0, posts = [], error = Some e'\<rparr>"
      unfolding st_def by (simp add: map_of_analyse)
    moreover from failure_logged [OF that(1) f] logged_fetch
    have "FetchFailed ch' e' \<in> set (logged r)" unfolding r_def by blast
    ultimately show ?thesis by simp
  qed
  from old ok bad show ?thesis unfolding st_def r_def by blast
qed

lemma sample_flood_returned_b:
  "returned (fetch_top_posts_with_client sample_client_flood [ustr ''b''] 50 100 write_file)
     = [sample_post (ustr ''b'') 7 9]"
  by (simp add: returned_fetch analyse_def process_channel_def fetch_channel_def cutoff_def
      select_top_def sort_reverse_def channel_top_count_exact make_post_def
      calculate_interaction_score_def ustr_def)

theorem fetch_failure_isolated_witness:
  "map_of (all_posts_by_channel (analyse sample_client [ustr ''a'', ustr ''c'', ustr ''b''] 50 100))
       (ustr ''c'')
     = Some \<lparr>total_posts = 0, selected_posts = 0, posts = [], error = Some (ustr ''not found'')\<rparr>
   \<and> FetchFailed (ustr ''c'') (ustr ''not found'')
       \<in> set (logged (fetch_top_posts_with_client sample_client
            [ustr ''a'', ustr ''c'', ustr ''b''] 50 100 (\<lambda>d. None)))
   \<and> ustr ''c'' \<notin> set (map channel (returned (fetch_top_posts_with_client sample_client
            [ustr ''a'', ustr ''c'', ustr ''b''] 50 100 (\<lambda>d. None))))
   \<and> returned (fetch_top_posts_with_client sample_client [ustr ''a'', ustr ''b''] 50 100 (\<lambda>d. None))
     = [sample_post (ustr ''a'') 2 9, sample_post (ustr ''a'') 4 9, sample_post (ustr ''b'') 7 9]
   \<and> map_of (all_posts_by_channel (analyse sample_client_flood [ustr ''d'', ustr ''b''] 50 100))
       (ustr ''d'')
     = Some \<lparr>total_posts = 0, selected_posts = 0, posts = [], error = Some (ustr ''flood wait'')\<rparr>
   \<and> FetchFailed (ustr ''d'') (ustr ''flood wait'')
       \<in> set (logged (fetch_top_posts_with_client sample_client_flood
            [ustr ''d'', ustr ''b''] 50 100 (\<lambda>d. None)))
   \<and> map_of (all_posts_by_channel (analyse sample_client_flood [ustr ''d'', ustr ''b''] 50 100))
       (ustr ''b'')
     = Some \<lparr>total_posts = 1, selected_posts = 1, posts = [sample_post (ustr ''b'') 7 9],
          error = None\<rparr>
   \<and> returned (fetch_top_posts_with_client sample_client_flood [ustr ''d'', ustr ''b''] 50 100
        (\<lambda>d. None))
     = [sample_post (ustr ''b'') 7 9]"
proof -
  have h1: "ustr ''c'' \<in> set [ustr ''a'', ustr ''c'', ustr ''b'']" by simp
  have h2: "get_entity sample_client (ustr ''c'') = Inl (ustr ''not found'')
      \<or> (\<exists>entity. get_entity sample_client (ustr ''c'') = Inr entity
            \<and> get_messages sample_client entity 50 = Inl (ustr ''not found''))"
    by simp
  note t = fetch_failure_isolated [where ch = "ustr ''c''"
      and channels = "[ustr ''a'', ustr ''c'', ustr ''b'']" and cl = sample_client
      and limit_per_channel = 50 and e = "ustr ''not found''" and now = 100
      and write_file = "\<lambda>d. None", OF h1 h2]
  from t have a: "map_of (all_posts_by_channel
        (analyse sample_client [ustr ''a'', ustr ''c'', ustr ''b''] 50 100)) (ustr ''c'')
     = Some \<lparr>total_posts = 0, selected_posts = 0, posts = [], error = Some (ustr ''not found'')\<rparr>"
    by (rule conjunct1)
  from t have b: "FetchFailed (ustr ''c'') (ustr ''not found'')
       \<in> set (logged (fetch_top_posts_with_client sample_client
            [ustr ''a'', ustr ''c'', ustr ''b''] 50 100 (\<lambda>d. None)))"
    by (rule conjunct1 [OF conjunct2])
  from t have "\<forall>p\<in>set (returned (fetch_top_posts_with_client sample_client
            [ustr ''a'', ustr ''c'', ustr ''b''] 50 100 (\<lambda>d. None))). channel p \<noteq> ustr ''c''"
    by (elim conjE)
  then have c: "ustr ''c'' \<notin> set (map channel (returned (fetch_top_posts_with_client
            sample_client [ustr ''a'', ustr ''c'', ustr ''b''] 50 100 (\<lambda>d. None))))"
    by auto
  from t have "returned (fetch_top_posts_with_client sample_client
        [ustr ''a'', ustr ''c'', ustr ''b''] 50 100 (\<lambda>d. None))
      = returned (fetch_top_posts_with_client sample_client
        (removeAll (ustr ''c'') [ustr ''a'', ustr ''c'', ustr ''b'']) 50 100 (\<lambda>d. None))"
    by (elim conjE)
  moreover have "removeAll (ustr ''c'') [ustr ''a'', ustr ''c'', ustr ''b'']
      = [ustr ''a'', ustr ''b'']" by (simp add: ustr_def)
  ultimately have d: "returned (fetch_top_posts_with_client sample_client
        [ustr ''a'', ustr ''b''] 50 100 (\<lambda>d. None))
     = [sample_post (ustr ''a'') 2 9, sample_post (ustr ''a'') 4 9, sample_post (ustr ''b'') 7 9]"
    by (simp only: sample_returned)
  have g1: "ustr ''d'' \<in> set [ustr ''d'', ustr ''b'']" by simp
  have g2: "get_entity sample_client_flood (ustr ''d'') = Inl (ustr ''flood wait'')
      \<or> (\<exists>entity. get_entity sample_client_flood (ustr ''d'') = Inr entity
            \<and> get_messages sample_client_flood entity 50 = Inl (ustr ''flood wait''))"
    by simp
  note u = fetch_failure_isolated [where ch = "ustr ''d''"
      and channels = "[ustr ''d'', ustr ''b'']" and cl = sample_client_flood
      and limit_per_channel = 50 and e = "ustr ''flood wait''" and now = 100
      and write_file = "\<lambda>d. None", OF g1 g2]
  from u have e: "map_of (all_posts_by_channel
        (analyse sample_client_flood [ustr ''d'', ustr ''b''] 50 100)) (ustr ''d'')
     = Some \<lparr>total_posts = 0, selected_posts = 0, posts = [], error = Some (ustr ''flood wait'')\<rparr>"
    by (rule conjunct1)
  from u have f: "FetchFailed (ustr ''d'') (ustr ''flood wait'')
       \<in> set (logged (fetch_top_posts_with_client sample_client_flood
            [ustr ''d'', ustr ''b''] 50 100 (\<lambda>d. None)))"
    by (rule conjunct1 [OF conjunct2])
  from u have "\<forall>ch'\<in>set [ustr ''d'', ustr ''b'']. \<forall>entity messages.
             get_entity sample_client_flood ch' = Inr entity
             \<and> get_messages sample_client_flood entity 50 = Inr messages
             \<longrightarrow> map_of (all_posts_by_channel
                    (analyse sample_client_flood [ustr ''d'', ustr ''b''] 50 100)) ch'
                 = Some (select_top (collect_recent ch' (cutoff 100) messages []))"
    by (elim conjE)
  then have "get_entity sample_client_flood (ustr ''b'') = Inr (ustr ''b'')
             \<and> get_messages sample_client_flood (ustr ''b'') 50 = Inr [sample_message 7 9]
             \<longrightarrow> map_of (all_posts_by_channel
                    (analyse sample_client_flood [ustr ''d'', ustr ''b''] 50 100)) (ustr ''b'')
                 = Some (select_top (collect_recent (ustr ''b'') (cutoff 100)
                      [sample_message 7 9] []))"
    by simp
  moreover have "get_entity sample_client_flood (ustr ''b'') = Inr (ustr ''b'')
             \<and> get_messages sample_client_flood (ustr ''b'') 50 = Inr [sample_message 7 9]"
    by (simp add: ustr_def)
  ultimately have "map_of (all_posts_by_channel
        (analyse sample_client_flood [ustr ''d'', ustr ''b''] 50 100)) (ustr ''b'')
      = Some (select_top (collect_recent (ustr ''b'') (cutoff 100) [sample_message 7 9] []))"
    by (rule mp)
  moreover have "select_top (collect_recent (ustr ''b'') (cutoff 100) [sample_message 7 9] [])
      = \<lparr>total_posts = 1, selected_posts = 1, posts = [sample_post (ustr ''b'') 7 9],
          error = None\<rparr>"
    by (simp add: cutoff_def select_top_def sort_reverse_def channel_top_count_exact
        make_post_def calculate_interaction_score_def)
  ultimately have g: "map_of (all_posts_by_channel
        (analyse sample_client_flood [ustr ''d'', ustr ''b''] 50 100)) (ustr ''b'')
      = Some \<lparr>total_posts = 1, selected_posts = 1, posts = [sample_post (ustr ''b'') 7 9],
          error = None\<rparr>"
    by (simp only:)
  from u have "returned (fetch_top_posts_with_client sample_client_flood
        [ustr ''d'', ustr ''b''] 50 100 (\<lambda>d. None))
      = returned (fetch_top_posts_with_client sample_client_flood
        (removeAll (ustr ''d'') [ustr ''d'', ustr ''b'']) 50 100 (\<lambda>d. None))"
    by (elim conjE)
  moreover have "removeAll (ustr ''d'') [ustr ''d'', ustr ''b''] = [ustr ''b'']"
    by (simp add: ustr_def)
  ultimately have h: "returned (fetch_top_posts_with_client sample_client_flood
        [ustr ''d'', ustr ''b''] 50 100 (\<lambda>d. None)) = [sample_post (ustr ''b'') 7 9]"
    by (simp only: sample_flood_returned_b)
  from a b c d e f g h show ?thesis by (intro conjI)
qed

section \<open>The older entry point against the new one\<close>

lemma scrape_channels_eq:
  "scrape_channels cl l c acc chs
     = acc @ concat (map (\<lambda>ch. case fetch_channel cl ch l of
           Inr messages \<Rightarrow> collect_recent ch c messages [] | Inl e \<Rightarrow> []) chs)"
proof (induction chs arbitrary: acc)
  case Nil
  then show ?case by simp
next
  case (Cons x xs)
  show ?case
  proof (cases "fetch_channel cl x l")
    case (Inl e)
    then show ?thesis by (simp add: Cons.IH)
  next
    case (Inr messages)
    have "collect_recent x c messages acc = acc @ collect_recent x c messages []"
      by (simp add: collect_recent_takeWhile)
    with Inr show ?thesis by (simp add: Cons.IH)
  qed
qed

lemma top_posts_scraper:
  "top_posts (fetch_top_posts_last_24h cl channels l now)
     = take (top_count (fetch_top_posts_last_24h cl channels l now))
         (sort_reverse interaction_score (concat (map (\<lambda>ch. case fetch_channel cl ch l of
            Inr messages \<Rightarrow> collect_recent ch (cutoff now) messages [] | Inl e \<Rightarrow> []) channels)))"
  by (simp add: fetch_top_posts_last_24h_def Let_def scrape_channels_eq)

lemma top_count_scraper:
  "top_count (fetch_top_posts_last_24h cl channels l now)
     = max 1 (int_of_float (mul_top_percentage (length (concat (map (\<lambda>ch.
          case fetch_channel cl ch l of
            Inr messages \<Rightarrow> collect_recent ch (cutoff now) messages [] | Inl e \<Rightarrow> []) channels)))))"
  by (simp add: fetch_top_posts_last_24h_def Let_def scrape_channels_eq length_sort_reverse)

lemma returned_single_channel:
  "returned (fetch_top_posts_with_client cl [ch] l now write_file)
     = posts (channel_entry cl l (cutoff now) ch)"
proof -
  have "sorted_wrt (\<lambda>p q. interaction_score q \<le> interaction_score p)
      (posts (channel_entry cl l (cutoff now) ch))"
  proof (cases "fetch_channel cl ch l")
    case (Inl e)
    then show ?thesis by (simp add: channel_entry_def failed_entry_def)
  next
    case (Inr messages)
    then show ?thesis
      by (simp add: channel_entry_def posts_select_top sorted_wrt_take sorted_desc_sort_reverse)
  qed
  then have "sort_reverse interaction_score (posts (channel_entry cl l (cutoff now) ch))
      = posts (channel_entry cl l (cutoff now) ch)" by (rule sort_reverse_sorted_id)
  then show ?thesis
    by (simp add: returned_fetch analyse_def dict_process_channel)
qed

lemma take_prefix_take: "a \<le> b \<Longrightarrow> prefix (take a xs) (take b xs)"
proof -
  assume "a \<le> b"
  then have "take a xs = take a (take b xs)" by (simp add: min_def)
  then show ?thesis by (metis take_is_prefix)
qed

lemma take_eq_take_iff:
  "take a xs = take b xs \<longleftrightarrow> min a (length xs) = min b (length xs)"
proof
  assume "take a xs = take b xs"
  then have "length (take a xs) = length (take b xs)" by simp
  then show "min a (length xs) = min b (length xs)" by (simp add: min.commute)
next
  assume m: "min a (length xs) = min b (length xs)"
  have "take a xs = take (min a (length xs)) xs" by (simp add: min_def)
  also have "\<dots> = take (min b (length xs)) xs" by (simp only: m)
  also have "\<dots> = take b xs" by (simp add: min_def)
  finally show "take a xs = take b xs" .
qed

lemma counts_agree_iff:
  "min (max 1 (n div 5)) n = min (if n = 0 then 0 else (n + 4) div 5) n
     \<longleftrightarrow> n < 5 \<or> n mod 5 = 0" for n :: nat
proof (cases "n < 5")
  case True
  then have "n div 5 = 0" by simp
  moreover from True have "n = 0 \<or> (n + 4) div 5 = 1" by presburger
  ultimately show ?thesis using True by auto
next
  case False
  then have a: "1 \<le> n div 5" "n div 5 \<le> n" "(n + 4) div 5 \<le> n" by presburger+
  have "n div 5 = (n + 4) div 5 \<longleftrightarrow> n mod 5 = 0" by presburger
  with a False show ?thesis by (simp add: min_def max_def)
qed

lemma sample_fetched_a:
  "(case fetch_channel sample_client (ustr ''a'') 50 of
      Inr messages \<Rightarrow> collect_recent (ustr ''a'') (cutoff 100) messages [] | Inl e \<Rightarrow> [])
   = [sample_post (ustr ''a'') 1 5, sample_post (ustr ''a'') 2 9, sample_post (ustr ''a'') 3 5,
      sample_post (ustr ''a'') 4 9, sample_post (ustr ''a'') 5 1, sample_post (ustr ''a'') 6 9]"
  by (simp add: fetch_channel_def cutoff_def make_post_def calculate_interaction_score_def
      ustr_def)

lemma sample_fetched_b:
  "(case fetch_channel sample_client (ustr ''b'') 50 of
      Inr messages \<Rightarrow> collect_recent (ustr ''b'') (cutoff 100) messages [] | Inl e \<Rightarrow> [])
   = [sample_post (ustr ''b'') 7 9]"
  by (simp add: fetch_channel_def cutoff_def make_post_def calculate_interaction_score_def
      ustr_def)

lemma sample_scraped_a:
  "top_posts (fetch_top_posts_last_24h sample_client [ustr ''a''] 50 100)
     = [sample_post (ustr ''a'') 2 9]"
  "top_count (fetch_top_posts_last_24h sample_client [ustr ''a''] 50 100) = 1"
  by (simp_all add: top_posts_scraper top_count_scraper sample_fetched_a
      int_of_float_mul_top_percentage sort_reverse_def)

lemma sample_scraped_ab:
  "top_posts (fetch_top_posts_last_24h sample_client [ustr ''a'', ustr ''b''] 50 100)
     = [sample_post (ustr ''a'') 2 9]"
  by (simp add: top_posts_scraper top_count_scraper sample_fetched_a sample_fetched_b
      int_of_float_mul_top_percentage sort_reverse_def)

lemma sample_analyse_a:
  "analyse sample_client [ustr ''a''] 50 100
   = \<lparr>all_posts_by_channel =
        [(ustr ''a'', \<lparr>total_posts = 6, selected_posts = 2,
            posts = [sample_post (ustr ''a'') 2 9, sample_post (ustr ''a'') 4 9], error = None\<rparr>)],
      errors_logged = []\<rparr>"
  by (simp add: analyse_def process_channel_def fetch_channel_def cutoff_def
      select_top_def sort_reverse_def channel_top_count_exact make_post_def
      calculate_interaction_score_def ustr_def)

lemma sample_returned_a:
  "returned (fetch_top_posts_with_client sample_client [ustr ''a''] 50 100 write_file)
     = [sample_post (ustr ''a'') 2 9, sample_post (ustr ''a'') 4 9]"
  by (simp add: returned_fetch sample_analyse_a sort_reverse_def)

lemma sample_analyse_ab:
  "analyse sample_client [ustr ''a'', ustr ''b''] 50 100
   = \<lparr>all_posts_by_channel =
        [(ustr ''a'', \<lparr>total_posts = 6, selected_posts = 2,
            posts = [sample_post (ustr ''a'') 2 9, sample_post (ustr ''a'') 4 9], error = None\<rparr>),
         (ustr ''b'', \<lparr>total_posts = 1, selected_posts = 1,
            posts = [sample_post (ustr ''b'') 7 9], error = None\<rparr>)],
      errors_logged = []\<rparr>"
  by (simp add: analyse_def process_channel_def fetch_channel_def cutoff_def
      select_top_def sort_reverse_def channel_top_count_exact make_post_def
      calculate_interaction_score_def ustr_def)

lemma sample_returned_ab:
  "returned (fetch_top_posts_with_client sample_client [ustr ''a'', ustr ''b''] 50 100 write_file)
   = [sample_post (ustr ''a'') 2 9, sample_post (ustr ''a'') 4 9, sample_post (ustr ''b'') 7 9]"
  by (simp add: returned_fetch sample_analyse_ab sort_reverse_def)

text \<open>
  C5, as amended. The two entry points are not equivalent: the older one pools the posts of
  all channels, sorts the pool and keeps its first \<open>max(1, int(total * 0.2))\<close> posts,
  rounding down and also when the pool is empty. With a single channel whose filtered list
  has \<open>n\<close> posts it returns the first \<open>max(1, floor(n * 0.2))\<close> posts of the stably sorted
  list, \<open>fetch_top_posts_with_client\<close> returns the first \<open>max(1, ceil(n * 0.2))\<close> (none
  when \<open>n = 0\<close>); the former is an initial segment of the latter, and the two are equal
  exactly when \<open>n < 5\<close> or \<open>n\<close> is a multiple of 5.
\<close>

theorem scraper_selection_single_channel:
  fixes cl :: "'e client" and ch limit_per_channel now write_file
  defines "fetched \<equiv> (case fetch_channel cl ch limit_per_channel of
              Inr messages \<Rightarrow> collect_recent ch (cutoff now) messages [] | Inl e \<Rightarrow> [])"
    and "scraped \<equiv> fetch_top_posts_last_24h cl [ch] limit_per_channel now"
    and "r \<equiv> fetch_top_posts_with_client cl [ch] limit_per_channel now write_file"
  assumes "length fetched < 2 ^ 51"
  shows "top_count scraped = max 1 (length fetched div 5)
       \<and> top_posts scraped
           = take (max 1 (length fetched div 5)) (sort_reverse interaction_score fetched)
       \<and> returned r
           = take (if length fetched = 0 then 0 else max 1 (nat \<lceil>real (length fetched) * 0.2\<rceil>))
               (sort_reverse interaction_score fetched)
       \<and> prefix (top_posts scraped) (returned r)
       \<and> (top_posts scraped = returned r \<longleftrightarrow> length fetched < 5 \<or> length fetched mod 5 = 0)
       \<and> (\<forall>channels.
             length (concat (map (\<lambda>c. case fetch_channel cl c limit_per_channel of
                     Inr messages \<Rightarrow> collect_recent c (cutoff now) messages []
                   | Inl e \<Rightarrow> []) channels)) < 2 ^ 51
             \<longrightarrow> top_count (fetch_top_posts_last_24h cl channels limit_per_channel now)
                   = max 1 (length (concat (map (\<lambda>c. case fetch_channel cl c limit_per_channel of
                     Inr messages \<Rightarrow> collect_recent c (cutoff now) messages []
                   | Inl e \<Rightarrow> []) channels)) div 5)
                 \<and> top_posts (fetch_top_posts_last_24h cl channels limit_per_channel now)
                   = take (max 1 (length (concat (map (\<lambda>c. case fetch_channel cl c limit_per_channel of
                     Inr messages \<Rightarrow> collect_recent c (cutoff now) messages []
                   | Inl e \<Rightarrow> []) channels)) div 5))
                       (sort_reverse interaction_score (concat (map (\<lambda>c. case fetch_channel cl c limit_per_channel of
                     Inr messages \<Rightarrow> collect_recent c (cutoff now) messages []
                   | Inl e \<Rightarrow> []) channels))))"
proof -
  define n where "n = length fetched"
  define kn where "kn = (if n = 0 then 0 else (n + 4) div 5)"
  define srt where "srt = sort_reverse interaction_score fetched"
  from assms(4) have nb: "n < 2 ^ 51" by (simp only: n_def)
  have pool: "concat (map (\<lambda>ch. case fetch_channel cl ch limit_per_channel of
        Inr messages \<Rightarrow> collect_recent ch (cutoff now) messages [] | Inl e \<Rightarrow> []) [ch]) = fetched"
    by (simp add: fetched_def)
  have "top_count scraped = max 1 (int_of_float (mul_top_percentage n))"
    unfolding scraped_def top_count_scraper pool n_def by (rule refl)
  also have "int_of_float (mul_top_percentage n) = n div 5"
    by (rule int_of_float_mul_top_percentage [OF nb])
  finally have cnt: "top_count scraped = max 1 (n div 5)" .
  have "top_posts scraped = take (top_count scraped) srt"
    unfolding scraped_def top_posts_scraper pool srt_def by (rule refl)
  then have old: "top_posts scraped = take (max 1 (n div 5)) srt" by (simp only: cnt)
  have new: "returned r = take kn srt"
  proof (cases "fetch_channel cl ch limit_per_channel")
    case (Inl e)
    then have "fetched = []" by (simp add: fetched_def)
    then have "srt = []" by (simp add: srt_def sort_reverse_def)
    moreover from Inl have "returned r = []"
      by (simp add: r_def returned_single_channel channel_entry_def failed_entry_def)
    ultimately show ?thesis by simp
  next
    case (Inr messages)
    then have f: "collect_recent ch (cutoff now) messages [] = fetched" by (simp add: fetched_def)
    from Inr have "channel_entry cl limit_per_channel (cutoff now) ch = select_top fetched"
      by (simp add: channel_entry_def f)
    then have "returned r = posts (select_top fetched)"
      by (simp only: r_def returned_single_channel)
    then have rr: "returned r = take (selected_posts (select_top fetched)) srt"
      by (simp only: posts_select_top srt_def)
    have "selected_posts (select_top fetched) = kn"
    proof (cases "n = 0")
      case True
      then have "fetched = []" by (simp add: n_def)
      with True show ?thesis by (simp add: selected_posts_select_top kn_def)
    next
      case False
      then have n0: "0 < n" by simp
      from False have ne: "fetched \<noteq> []" by (simp add: n_def)
      have "selected_posts (select_top fetched) = channel_top_count (length fetched)"
        using ne by (simp add: selected_posts_select_top)
      also have "\<dots> = channel_top_count n" by (simp only: n_def)
      also have "\<dots> = (n + 4) div 5" by (rule channel_top_count_exact [OF n0 nb])
      also have "\<dots> = kn" using False by (simp add: kn_def)
      finally show ?thesis .
    qed
    with rr show ?thesis by (simp only:)
  qed
  have kn': "kn = (if n = 0 then 0 else max 1 (nat \<lceil>real n * 0.2\<rceil>))"
  proof (cases "n = 0")
    case True
    then show ?thesis by (simp add: kn_def)
  next
    case False
    then have "1 \<le> (n + 4) div 5" by presburger
    then have mx: "max 1 ((n + 4) div 5) = (n + 4) div 5" by simp
    have "nat \<lceil>real n * 0.2\<rceil> = (n + 4) div 5" by (rule ceiling_fifth)
    with mx False show ?thesis unfolding kn_def by presburger
  qed
  have len: "length srt = n" by (simp add: srt_def n_def length_sort_reverse)
  have pre: "prefix (top_posts scraped) (returned r)"
  proof (cases "n = 0")
    case True
    with len have "srt = []" by simp
    then show ?thesis by (simp add: old new)
  next
    case False
    then have a: "1 \<le> (n + 4) div 5" by presburger
    have b: "n div 5 \<le> (n + 4) div 5" by presburger
    from a b False have "max 1 (n div 5) \<le> kn" by (simp add: kn_def)
    then show ?thesis unfolding old new by (rule take_prefix_take)
  qed
  have "top_posts scraped = returned r \<longleftrightarrow> min (max 1 (n div 5)) n = min kn n"
    unfolding old new by (simp only: take_eq_take_iff len)
  also have "\<dots> \<longleftrightarrow> n < 5 \<or> n mod 5 = 0"
    unfolding kn_def by (rule counts_agree_iff)
  finally have eq: "top_posts scraped = returned r \<longleftrightarrow> n < 5 \<or> n mod 5 = 0" .
  have pooled: "top_count (fetch_top_posts_last_24h cl channels limit_per_channel now)
                   = max 1 (length (concat (map (\<lambda>c. case fetch_channel cl c limit_per_channel of
                     Inr messages \<Rightarrow> collect_recent c (cutoff now) messages []
                   | Inl e \<Rightarrow> []) channels)) div 5)
                 \<and> top_posts (fetch_top_posts_last_24h cl channels limit_per_channel now)
                   = take (max 1 (length (concat (map (\<lambda>c. case fetch_channel cl c limit_per_channel of
                     Inr messages \<Rightarrow> collect_recent c (cutoff now) messages []
                   | Inl e \<Rightarrow> []) channels)) div 5))
                       (sort_reverse interaction_score (concat (map (\<lambda>c. case fetch_channel cl c limit_per_channel of
                     Inr messages \<Rightarrow> collect_recent c (cutoff now) messages []
                   | Inl e \<Rightarrow> []) channels)))"
    if b: "length (concat (map (\<lambda>c. case fetch_channel cl c limit_per_channel of
                     Inr messages \<Rightarrow> collect_recent c (cutoff now) messages []
                   | Inl e \<Rightarrow> []) channels)) < 2 ^ 51" for channels
  proof -
    have c: "top_count (fetch_top_posts_last_24h cl channels limit_per_channel now)
        = max 1 (length (concat (map (\<lambda>c. case fetch_channel cl c limit_per_channel of
                     Inr messages \<Rightarrow> collect_recent c (cutoff now) messages []
                   | Inl e \<Rightarrow> []) channels)) div 5)"
      unfolding top_count_scraper by (simp only: int_of_float_mul_top_percentage [OF b])
    have "top_posts (fetch_top_posts_last_24h cl channels limit_per_channel now)
        = take (top_count (fetch_top_posts_last_24h cl channels limit_per_channel now))
            (sort_reverse interaction_score (concat (map (\<lambda>c. case fetch_channel cl c limit_per_channel of
                     Inr messages \<Rightarrow> collect_recent c (cutoff now) messages []
                   | Inl e \<Rightarrow> []) channels)))"
      by (rule top_posts_scraper)
    with c show ?thesis by (simp only:)
  qed
  have pooled': "\<forall>channels.
             length (concat (map (\<lambda>c. case fetch_channel cl c limit_per_channel of
                     Inr messages \<Rightarrow> collect_recent c (cutoff now) messages []
                   | Inl e \<Rightarrow> []) channels)) < 2 ^ 51
             \<longrightarrow> top_count (fetch_top_posts_last_24h cl channels limit_per_channel now)
                   = max 1 (length (concat (map (\<lambda>c. case fetch_channel cl c limit_per_channel of
                     Inr messages \<Rightarrow> collect_recent c (cutoff now) messages []
                   | Inl e \<Rightarrow> []) channels)) div 5)
                 \<and> top_posts (fetch_top_posts_last_24h cl channels limit_per_channel now)
                   = take (max 1 (length (concat (map (\<lambda>c. case fetch_channel cl c limit_per_channel of
                     Inr messages \<Rightarrow> collect_recent c (cutoff now) messages []
                   | Inl e \<Rightarrow> []) channels)) div 5))
                       (sort_reverse interaction_score (concat (map (\<lambda>c. case fetch_channel cl c limit_per_channel of
                     Inr messages \<Rightarrow> collect_recent c (cutoff now) messages []
                   | Inl e \<Rightarrow> []) channels)))"
    by (intro allI impI) (rule pooled)
  from cnt old new pre eq pooled' show ?thesis
    unfolding kn' srt_def n_def by (intro conjI)
qed

theorem scraper_selection_single_channel_witness:
  "prefix (top_posts (fetch_top_posts_last_24h sample_client [ustr ''a''] 50 100))
          (returned (fetch_top_posts_with_client sample_client [ustr ''a''] 50 100 (\<lambda>d. None)))
   \<and> top_posts (fetch_top_posts_last_24h sample_client [ustr ''a''] 50 100)
       \<noteq> returned (fetch_top_posts_with_client sample_client [ustr ''a''] 50 100 (\<lambda>d. None))
   \<and> top_posts (fetch_top_posts_last_24h sample_client [ustr ''b''] 50 100)
       = returned (fetch_top_posts_with_client sample_client [ustr ''b''] 50 100 (\<lambda>d. None))
   \<and> top_count (fetch_top_posts_last_24h sample_client [ustr ''a'', ustr ''b''] 50 100) = 1"
proof -
  have ha: "length (case fetch_channel sample_client (ustr ''a'') 50 of
      Inr messages \<Rightarrow> collect_recent (ustr ''a'') (cutoff 100) messages [] | Inl e \<Rightarrow> [])
      < 2 ^ 51" by (simp add: sample_fetched_a)
  have hb: "length (case fetch_channel sample_client (ustr ''b'') 50 of
      Inr messages \<Rightarrow> collect_recent (ustr ''b'') (cutoff 100) messages [] | Inl e \<Rightarrow> [])
      < 2 ^ 51" by (simp add: sample_fetched_b)
  note ta = scraper_selection_single_channel [where cl = sample_client and ch = "ustr ''a''"
      and limit_per_channel = 50 and now = 100 and write_file = "\<lambda>d. None", OF ha]
  note tb = scraper_selection_single_channel [where cl = sample_client and ch = "ustr ''b''"
      and limit_per_channel = 50 and now = 100 and write_file = "\<lambda>d. None", OF hb]
  from ta have a: "prefix (top_posts (fetch_top_posts_last_24h sample_client [ustr ''a''] 50 100))
      (returned (fetch_top_posts_with_client sample_client [ustr ''a''] 50 100 (\<lambda>d. None)))"
    by (elim conjE)
  have la: "length (case fetch_channel sample_client (ustr ''a'') 50 of
      Inr messages \<Rightarrow> collect_recent (ustr ''a'') (cutoff 100) messages [] | Inl e \<Rightarrow> []) = 6" by (simp add: sample_fetched_a)
  have lb: "length (case fetch_channel sample_client (ustr ''b'') 50 of
      Inr messages \<Rightarrow> collect_recent (ustr ''b'') (cutoff 100) messages [] | Inl e \<Rightarrow> []) = 1" by (simp add: sample_fetched_b)
  from ta have "top_posts (fetch_top_posts_last_24h sample_client [ustr ''a''] 50 100)
       = returned (fetch_top_posts_with_client sample_client [ustr ''a''] 50 100 (\<lambda>d. None))
     \<longleftrightarrow> length (case fetch_channel sample_client (ustr ''a'') 50 of
      Inr messages \<Rightarrow> collect_recent (ustr ''a'') (cutoff 100) messages [] | Inl e \<Rightarrow> []) < 5
       \<or> length (case fetch_channel sample_client (ustr ''a'') 50 of
      Inr messages \<Rightarrow> collect_recent (ustr ''a'') (cutoff 100) messages [] | Inl e \<Rightarrow> []) mod 5 = 0"
    by (elim conjE)
  then have b: "top_posts (fetch_top_posts_last_24h sample_client [ustr ''a''] 50 100)
       \<noteq> returned (fetch_top_posts_with_client sample_client [ustr ''a''] 50 100 (\<lambda>d. None))"
    unfolding la by simp
  from tb have "top_posts (fetch_top_posts_last_24h sample_client [ustr ''b''] 50 100)
       = returned (fetch_top_posts_with_client sample_client [ustr ''b''] 50 100 (\<lambda>d. None))
     \<longleftrightarrow> length (case fetch_channel sample_client (ustr ''b'') 50 of
      Inr messages \<Rightarrow> collect_recent (ustr ''b'') (cutoff 100) messages [] | Inl e \<Rightarrow> []) < 5
       \<or> length (case fetch_channel sample_client (ustr ''b'') 50 of
      Inr messages \<Rightarrow> collect_recent (ustr ''b'') (cutoff 100) messages [] | Inl e \<Rightarrow> []) mod 5 = 0"
    by (elim conjE)
  then have c: "top_posts (fetch_top_posts_last_24h sample_client [ustr ''b''] 50 100)
       = returned (fetch_top_posts_with_client sample_client [ustr ''b''] 50 100 (\<lambda>d. None))"
    unfolding lb by simp
  have lp: "length (concat (map (\<lambda>c. case fetch_channel sample_client c 50 of
                     Inr messages \<Rightarrow> collect_recent c (cutoff 100) messages []
                   | Inl e \<Rightarrow> []) [ustr ''a'', ustr ''b''])) = 7"
    by (simp add: sample_fetched_a sample_fetched_b)
  from ta have "\<forall>channels.
             length (concat (map (\<lambda>c. case fetch_channel sample_client c 50 of
                     Inr messages \<Rightarrow> collect_recent c (cutoff 100) messages []
                   | Inl e \<Rightarrow> []) channels)) < 2 ^ 51
             \<longrightarrow> top_count (fetch_top_posts_last_24h sample_client channels 50 100)
                   = max 1 (length (concat (map (\<lambda>c. case fetch_channel sample_client c 50 of
                     Inr messages \<Rightarrow> collect_recent c (cutoff 100) messages []
                   | Inl e \<Rightarrow> []) channels)) div 5)
                 \<and> top_posts (fetch_top_posts_last_24h sample_client channels 50 100)
                   = take (max 1 (length (concat (map (\<lambda>c. case fetch_channel sample_client c 50 of
                     Inr messages \<Rightarrow> collect_recent c (cutoff 100) messages []
                   | Inl e \<Rightarrow> []) channels)) div 5))
                       (sort_reverse interaction_score (concat (map (\<lambda>c. case fetch_channel sample_client c 50 of
                     Inr messages \<Rightarrow> collect_recent c (cutoff 100) messages []
                   | Inl e \<Rightarrow> []) channels)))"
    by (elim conjE)
  then have "length (concat (map (\<lambda>c. case fetch_channel sample_client c 50 of
                     Inr messages \<Rightarrow> collect_recent c (cutoff 100) messages []
                   | Inl e \<Rightarrow> []) [ustr ''a'', ustr ''b''])) < 2 ^ 51
             \<longrightarrow> top_count (fetch_top_posts_last_24h sample_client [ustr ''a'', ustr ''b''] 50 100)
                   = max 1 (length (concat (map (\<lambda>c. case fetch_channel sample_client c 50 of
                     Inr messages \<Rightarrow> collect_recent c (cutoff 100) messages []
                   | Inl e \<Rightarrow> []) [ustr ''a'', ustr ''b''])) div 5)
                 \<and> top_posts (fetch_top_posts_last_24h sample_client [ustr ''a'', ustr ''b''] 50 100)
                   = take (max 1 (length (concat (map (\<lambda>c. case fetch_channel sample_client c 50 of
                     Inr messages \<Rightarrow> collect_recent c (cutoff 100) messages []
                   | Inl e \<Rightarrow> []) [ustr ''a'', ustr ''b''])) div 5))
                       (sort_reverse interaction_score (concat (map (\<lambda>c. case fetch_channel sample_client c 50 of
                     Inr messages \<Rightarrow> collect_recent c (cutoff 100) messages []
                   | Inl e \<Rightarrow> []) [ustr ''a'', ustr ''b''])))"
    by (rule spec)
  then have d: "top_count (fetch_top_posts_last_24h sample_client [ustr ''a'', ustr ''b''] 50 100) = 1"
    unfolding lp by simp
  from a b c d show ?thesis by (intro conjI)
qed

text \<open>
  The claim of C5 as stated fails: on channel \<open>a\<close> of the sample client, with six recent
  posts, the older entry point selects one post and \<open>fetch_top_posts_with_client\<close> two; on
  the channels \<open>a\<close> and \<open>b\<close> together it selects one post of the pool of seven, against
  three.
\<close>

theorem scraper_not_equivalent_counterexample:
  "top_posts (fetch_top_posts_last_24h sample_client [ustr ''a''] 50 100)
     = [sample_post (ustr ''a'') 2 9]
   \<and> returned (fetch_top_posts_with_client sample_client [ustr ''a''] 50 100 (\<lambda>d. None))
     = [sample_post (ustr ''a'') 2 9, sample_post (ustr ''a'') 4 9]
   \<and> set (top_posts (fetch_top_posts_last_24h sample_client [ustr ''a''] 50 100))
     \<noteq> set (returned (fetch_top_posts_with_client sample_client [ustr ''a''] 50 100 (\<lambda>d. None)))
   \<and> top_count (fetch_top_posts_last_24h sample_client [ustr ''a''] 50 100) = 1
   \<and> map (\<lambda>(ch, data). selected_posts data)
        (all_posts_by_channel (analyse sample_client [ustr ''a''] 50 100)) = [2]
   \<and> top_posts (fetch_top_posts_last_24h sample_client [ustr ''a'', ustr ''b''] 50 100)
     = [sample_post (ustr ''a'') 2 9]
   \<and> returned (fetch_top_posts_with_client sample_client [ustr ''a'', ustr ''b''] 50 100
        (\<lambda>d. None))
     = [sample_post (ustr ''a'') 2 9, sample_post (ustr ''a'') 4 9, sample_post (ustr ''b'') 7 9]"
proof (intro conjI)
  show "set (top_posts (fetch_top_posts_last_24h sample_client [ustr ''a''] 50 100))
     \<noteq> set (returned (fetch_top_posts_with_client sample_client [ustr ''a''] 50 100 (\<lambda>d. None)))"
  proof -
    have "sample_post (ustr ''a'') 4 9
        \<in> set [sample_post (ustr ''a'') 2 9, sample_post (ustr ''a'') 4 9]" by simp
    moreover have "sample_post (ustr ''a'') 4 9 \<notin> set [sample_post (ustr ''a'') 2 9]" by simp
    ultimately have "set [sample_post (ustr ''a'') 2 9]
        \<noteq> set [sample_post (ustr ''a'') 2 9, sample_post (ustr ''a'') 4 9]" by metis
    then show ?thesis unfolding sample_scraped_a sample_returned_a .
  qed
qed (simp_all add: sample_scraped_a sample_returned_a sample_scraped_ab sample_returned_ab
    sample_analyse_a)

end
